theory Spec2Isabelle
  imports Complex_Main "HOL-Library.AList"
begin

section \<open>Strings\<close>

text \<open>
  JavaScript strings are modelled as \<open>string\<close> (lists of 8-bit characters): ASCII text is
  represented character by character, a character beyond ASCII by the bytes of its UTF-8
  encoding. The string methods the worker uses are written out below with the source's
  names (\<open>includes\<close> is a reserved word of the theory language, hence \<open>includes_str\<close>).
\<close>

text \<open>\<open>s.startsWith(p)\<close>\<close>

fun startsWith :: "string \<Rightarrow> string \<Rightarrow> bool" where
  "startsWith s [] = True"
| "startsWith [] (p # ps) = False"
| "startsWith (c # cs) (p # ps) = (c = p \<and> startsWith cs ps)"

text \<open>\<open>s.includes(p)\<close>\<close>

fun includes_str :: "string \<Rightarrow> string \<Rightarrow> bool" where
  "includes_str [] p = (p = [])"
| "includes_str (c # cs) p = (startsWith (c # cs) p \<or> includes_str cs p)"

text \<open>
  \<open>s.trim()\<close> strips white space and line terminators from both ends. Within ASCII these
  are tab, line feed, vertical tab, form feed, carriage return and space.
\<close>

definition isWhiteSpace :: "char \<Rightarrow> bool" where
  "isWhiteSpace c =
     (c = CHR 0x09 \<or> c = CHR 0x0A \<or> c = CHR 0x0B \<or> c = CHR 0x0C \<or> c = CHR 0x0D \<or> c = CHR 0x20)"

definition trim :: "string \<Rightarrow> string" where
  "trim s = rev (dropWhile isWhiteSpace (rev (dropWhile isWhiteSpace s)))"


section \<open>The client translation engine: cache and batch request\<close>

text \<open>
  The script injected by \<open>injectAutoTranslation\<close> keeps two script-scoped collections for
  the lifetime of a page view: \<open>translationCache\<close>, a \<open>Map\<close> from source text to translated
  text, and \<open>translatedNodes\<close>, a \<open>WeakSet\<close> of DOM nodes. This section models the cache and
  \<open>translateTexts\<close>, which is the only function that writes to it.
\<close>

text \<open>The body of the \<open>POST /translate/\<close> request, before \<open>JSON.stringify\<close>.\<close>

record request =
  project_api_key :: string
  language :: string
  texts :: "string list"

text \<open>
  What \<open>await fetch(...)\<close> followed by \<open>await res.json()\<close> can yield inside the \<open>try\<close> block of
  \<open>translateTexts\<close>. An entry of \<open>data.translations\<close> is a pair of its \<open>original\<close> and
  \<open>translated\<close> fields, \<open>None\<close> for a field that is missing or \<open>null\<close> (or an entry that is
  itself \<open>null\<close>); fields are strings.
\<close>

type_synonym entry = "string option \<times> string option"

datatype translations_field =
    Missing
  | NotAnArray
  | Entries "entry list"

datatype fetch_result =
    NetworkError
  | HttpNotOk
  | MalformedJson
  | Data translations_field

text \<open>JavaScript truthiness of an optional string: present and not empty.\<close>

fun truthy :: "string option \<Rightarrow> bool" where
  "truthy None = False"
| "truthy (Some s) = (s \<noteq> [])"

text \<open>
  \<open>data.translations.forEach(t => { if (t?.original && t?.translated)
  translationCache.set(t.original, t.translated) })\<close>
\<close>

fun setEntry :: "(string \<rightharpoonup> string) \<Rightarrow> entry \<Rightarrow> (string \<rightharpoonup> string)" where
  "setEntry cache (Some orig, Some tr) = (if orig \<noteq> [] \<and> tr \<noteq> [] then cache(orig \<mapsto> tr) else cache)"
| "setEntry cache (_, _) = cache"

text \<open>
  The effect of the \<open>try\<close>/\<open>catch\<close> block on the cache: a network error, a non-OK status, a
  body that is not JSON and a \<open>translations\<close> field that cannot be iterated all end in the
  \<open>catch\<close> (or skip the \<open>if\<close>) and leave the cache as it is.
\<close>

fun mergeResponse :: "fetch_result \<Rightarrow> (string \<rightharpoonup> string) \<Rightarrow> (string \<rightharpoonup> string)" where
  "mergeResponse (Data (Entries es)) cache = foldl setEntry cache es"
| "mergeResponse _ cache = cache"

text \<open>
  \<open>translateTexts(texts)\<close>. The translation collaborator is a function from the request to
  what the fetch yields. The result is the request that was sent (\<open>None\<close> when the function
  returns before the fetch) and the cache afterwards.
\<close>

definition toTranslate :: "(string \<rightharpoonup> string) \<Rightarrow> string list \<Rightarrow> string list" where
  "toTranslate cache ts = filter (\<lambda>t. cache t = None \<or> cache t = Some t) ts"

definition translateTexts ::
  "(request \<Rightarrow> fetch_result) \<Rightarrow> string \<Rightarrow> string \<Rightarrow> string list \<Rightarrow> (string \<rightharpoonup> string)
     \<Rightarrow> request option \<times> (string \<rightharpoonup> string)" where
  "translateTexts collaborator lang apiKey ts cache =
     (let batch = toTranslate cache ts in
      if length batch = 0 then (None, cache)
      else
        let req = \<lparr>project_api_key = apiKey, language = lang, texts = batch\<rparr>
        in (Some req, mergeResponse (collaborator req) cache))"

text \<open>The \<open>texts\<close> array of the request that was sent; empty when none was.\<close>

fun sentTexts :: "request option \<Rightarrow> string list" where
  "sentTexts None = []"
| "sentTexts (Some req) = texts req"







section \<open>Link rewriting\<close>

text \<open>
  The body of the \<open>forEach\<close> callback of \<open>rewriteInternalLinks\<close> (and of the identical loop at
  the end of \<open>translateNewNodes\<close>), as a function from the link's \<open>href\<close> to the value the
  attribute has afterwards. \<open>lang\<close> is the language the worker interpolated into the script.
\<close>

definition rewriteHref :: "string \<Rightarrow> string \<Rightarrow> string" where
  "rewriteHref lang href =
     (let langPrefix = ''/'' @ lang in
      if href = [] then href
      else if startsWith href ''http://'' \<or> startsWith href ''https://'' then href
      else if startsWith href ''#'' then href
      else if startsWith href ''mailto:'' \<or> startsWith href ''tel:'' then href
      else if \<not> startsWith href (langPrefix @ ''/'') \<and> href \<noteq> langPrefix then
        (if href = ''/'' then langPrefix
         else if startsWith href ''/'' then langPrefix @ href
         else if startsWith href ''./'' then langPrefix @ ''/'' @ drop 2 href
         else langPrefix @ ''/'' @ href)
      else href)"


section \<open>The document\<close>

text \<open>
  A DOM subtree is a tree of nodes, each with its identity. What the engine reads and
  writes in place, the character data of a text node (\<open>nodeValue\<close>) and the attributes of
  an element, is held in a store keyed by node identity, so that every reference to a node
  sees a write to it. The tree structure and the tag names are not changed by the engine.
\<close>

type_synonym node_id = nat

datatype node =
    TextNode node_id
  | CommentNode node_id
  | Element node_id string "node list"

record dom =
  nodeValue :: "node_id \<Rightarrow> string"
  attributes :: "node_id \<Rightarrow> (string \<times> string) list"


definition ELEMENT_NODE :: nat where "ELEMENT_NODE = 1"

fun nodeType :: "node \<Rightarrow> nat" where
  "nodeType (Element i tag children) = 1"
| "nodeType (TextNode i) = 3"
| "nodeType (CommentNode i) = 8"

text \<open>\<open>el.getAttribute(name)\<close> (\<open>None\<close> is \<open>null\<close>) and \<open>el.setAttribute(name, v)\<close>.\<close>

definition getAttribute :: "dom \<Rightarrow> node_id \<Rightarrow> string \<Rightarrow> string option" where
  "getAttribute d el name = map_of (attributes d el) name"

definition setAttribute :: "dom \<Rightarrow> node_id \<Rightarrow> string \<Rightarrow> string \<Rightarrow> dom" where
  "setAttribute d el name v = d\<lparr>attributes := (attributes d)(el := AList.update name v (attributes d el))\<rparr>"

definition setNodeValue :: "dom \<Rightarrow> node_id \<Rightarrow> string \<Rightarrow> dom" where
  "setNodeValue d n v = d\<lparr>nodeValue := (nodeValue d)(n := v)\<rparr>"

text \<open>Whether an element with these attributes matches the selector \<open>[translate="no"]\<close>.\<close>

definition translateNo :: "(string \<times> string) list \<Rightarrow> bool" where
  "translateNo attrs = (map_of attrs ''translate'' = Some ''no'')"

text \<open>
  The elements of a subtree in document order, the root first, each with its tag name;
  \<open>root.querySelectorAll\<close> and \<open>root.querySelector\<close> range over the descendants, without the
  root.
\<close>

fun elements :: "node \<Rightarrow> (node_id \<times> string) list" where
  "elements (TextNode i) = []"
| "elements (CommentNode i) = []"
| "elements (Element i tag children) = (i, tag) # concat (map elements children)"

fun descendants :: "node \<Rightarrow> (node_id \<times> string) list" where
  "descendants (Element i tag children) = concat (map elements children)"
| "descendants _ = []"


section \<open>Extraction\<close>

text \<open>A collected text node: the node and its \<open>parentElement\<close>.\<close>

record text_cand =
  t_node :: node_id
  t_parent :: node_id

text \<open>An entry of the list \<open>collectAttributeNodes\<close> returns: \<open>{ element, attribute, text }\<close>.\<close>

record attr_cand =
  element :: node_id
  attribute :: string
  a_text :: string

text \<open>
  The loop of \<open>collectTextNodes\<close> over the text nodes the \<open>TreeWalker\<close> yields, as a walk of
  the subtree. The walk carries what the loop body asks of the node's parent element:
  \<open>optOut\<close>, whether \<open>parent.closest('[translate="no"]')\<close> finds an element (the parent or
  any of its ancestors), and the parent's identity and \<open>tagName\<close>. A text node reached by
  the walk always has a parent element, so the test \<open>!parent\<close> never holds.
\<close>

fun walkText :: "dom \<Rightarrow> nat set \<Rightarrow> bool \<Rightarrow> bool \<Rightarrow> node_id \<Rightarrow> string \<Rightarrow> node \<Rightarrow> text_cand list" where
  "walkText d marked isHead optOut parent tagName (TextNode n) =
     (if n \<in> marked then []
      else if trim (nodeValue d n) = [] then []
      else if optOut then []
      else if tagName \<in> set [''SCRIPT'', ''STYLE'', ''NOSCRIPT'', ''IFRAME'', ''CODE'', ''PRE''] then []
      else if isHead then
        (if tagName \<in> set [''TITLE''] then [\<lparr>t_node = n, t_parent = parent\<rparr>] else [])
      else [\<lparr>t_node = n, t_parent = parent\<rparr>])"
| "walkText d marked isHead optOut parent tagName (CommentNode n) = []"
| "walkText d marked isHead optOut parent tagName (Element el tag children) =
     concat (map (walkText d marked isHead (optOut \<or> translateNo (attributes d el)) el tag) children)"

text \<open>
  \<open>collectTextNodes(root)\<close>. \<open>isHead\<close> is the test \<open>root === document.head\<close>;
  \<open>ancestorOptOut\<close> says whether a proper ancestor of \<open>root\<close> in the document matches
  \<open>[translate="no"]\<close> (\<open>closest\<close> climbs beyond the root). The walker never yields the root
  itself.
\<close>

definition collectTextNodes :: "dom \<Rightarrow> nat set \<Rightarrow> bool \<Rightarrow> bool \<Rightarrow> node \<Rightarrow> text_cand list" where
  "collectTextNodes d marked isHead ancestorOptOut rootNode =
     (case rootNode of
        Element el tag children \<Rightarrow> walkText d marked isHead ancestorOptOut el tag rootNode
      | _ \<Rightarrow> [])"

text \<open>The body of the inner \<open>forEach\<close> of \<open>collectAttributeNodes\<close>, for one attribute name.\<close>

definition attrCandidate :: "dom \<Rightarrow> nat set \<Rightarrow> node_id \<Rightarrow> string \<Rightarrow> attr_cand list" where
  "attrCandidate d marked el attr =
     (case getAttribute d el attr of
        None \<Rightarrow> []
      | Some val \<Rightarrow>
          if val \<noteq> [] \<and> trim val \<noteq> [] \<and> el \<notin> marked
          then [\<lparr>element = el, attribute = attr, a_text = trim val\<rparr>] else [])"

definition standardAttributes :: "string list" where
  "standardAttributes = [''alt'', ''title'', ''placeholder'', ''aria-label'']"

text \<open>\<open>root.querySelectorAll('[alt], [title], [placeholder], [aria-label]')\<close>\<close>

definition attributeElements :: "dom \<Rightarrow> node \<Rightarrow> node_id list" where
  "attributeElements d rootNode =
     map fst (filter (\<lambda>(el, tag). list_ex (\<lambda>attr. getAttribute d el attr \<noteq> None) standardAttributes)
                (descendants rootNode))"

text \<open>
  One of the seven blocks for the head: \<open>root.querySelector('meta[name="..."]')\<close> (or
  \<open>meta[property="..."]\<close>) yields the first matching descendant, whose \<open>content\<close> is a
  candidate under the same test as above.
\<close>

definition metaCandidate :: "dom \<Rightarrow> nat set \<Rightarrow> node \<Rightarrow> string \<Rightarrow> string \<Rightarrow> attr_cand list" where
  "metaCandidate d marked rootNode key val =
     (case find (\<lambda>(el, tag). tag = ''META'' \<and> getAttribute d el key = Some val) (descendants rootNode) of
        None \<Rightarrow> []
      | Some (el, tag) \<Rightarrow> attrCandidate d marked el ''content'')"

definition collectAttributeNodes :: "dom \<Rightarrow> nat set \<Rightarrow> bool \<Rightarrow> node \<Rightarrow> attr_cand list" where
  "collectAttributeNodes d marked isHead rootNode =
     concat (map (\<lambda>el. concat (map (attrCandidate d marked el) standardAttributes))
               (attributeElements d rootNode))
     @ (if isHead then
          metaCandidate d marked rootNode ''name'' ''title''
          @ metaCandidate d marked rootNode ''name'' ''description''
          @ metaCandidate d marked rootNode ''name'' ''keywords''
          @ metaCandidate d marked rootNode ''property'' ''og:title''
          @ metaCandidate d marked rootNode ''property'' ''og:description''
          @ metaCandidate d marked rootNode ''name'' ''twitter:title''
          @ metaCandidate d marked rootNode ''name'' ''twitter:description''
        else [])"


section \<open>Translation passes\<close>

text \<open>
  The state a pass works on: the store of the document, and the script's \<open>translationCache\<close>
  and \<open>translatedNodes\<close>. A node is in \<open>translatedNodes\<close> by its identity.
\<close>

record page =
  document :: dom
  translationCache :: "string \<rightharpoonup> string"
  translatedNodes :: "nat set"

text \<open>
  The two \<open>forEach\<close> loops that apply the translations. \<open>ts\<close> is the array \<open>texts\<close> of the
  pass, read by index: \<open>texts[i]\<close> for the \<open>i\<close>-th text node, \<open>texts[textNodes.length + i]\<close>
  for the \<open>i\<close>-th attribute candidate.
\<close>

definition applyTextNode :: "string list \<Rightarrow> page \<Rightarrow> text_cand \<times> nat \<Rightarrow> page" where
  "applyTextNode ts p ni =
     (case ni of (n, i) \<Rightarrow>
        let translated = translationCache p (ts ! i) in
        if truthy translated \<and> translated \<noteq> Some (ts ! i)
        then p\<lparr>document := setNodeValue (document p) (t_node n) (the translated),
               translatedNodes := insert (t_node n) (translatedNodes p)\<rparr>
        else p)"

definition applyAttrNode :: "string list \<Rightarrow> nat \<Rightarrow> page \<Rightarrow> attr_cand \<times> nat \<Rightarrow> page" where
  "applyAttrNode ts offset p ai =
     (case ai of (a, i) \<Rightarrow>
        let translated = translationCache p (ts ! (offset + i)) in
        if truthy translated \<and> translated \<noteq> Some (ts ! (offset + i))
        then p\<lparr>document := setAttribute (document p) (element a) (attribute a) (the translated),
               translatedNodes := insert (element a) (translatedNodes p)\<rparr>
        else p)"

definition applyTranslations :: "string list \<Rightarrow> text_cand list \<Rightarrow> attr_cand list \<Rightarrow> page \<Rightarrow> page" where
  "applyTranslations ts textNodes attrNodes p =
     foldl (applyAttrNode ts (length textNodes))
       (foldl (applyTextNode ts) p (zip textNodes [0..<length textNodes]))
       (zip attrNodes [0..<length attrNodes])"

text \<open>
  The body that \<open>translateContent\<close>, \<open>translateVisibleContent\<close>, \<open>translateBelowFoldContent\<close>
  and the loop of \<open>translateNewNodes\<close> share word for word: collect, build \<open>texts\<close> (text
  nodes first, then attributes), return if it is empty, \<open>await translateTexts(texts)\<close>, apply.
  The passes differ only in the filter they put on the collected candidates, here
  \<open>keepText\<close> and \<open>keepAttr\<close>. The result is the request sent, if any, and the page
  afterwards. A pass is taken as one step: no other pass runs between its request and its
  apply phase.
\<close>

definition passTexts :: "dom \<Rightarrow> text_cand list \<Rightarrow> attr_cand list \<Rightarrow> string list" where
  "passTexts d textNodes attrNodes =
     map (\<lambda>n. trim (nodeValue d (t_node n))) textNodes @ map a_text attrNodes"

definition translatePass ::
  "(request \<Rightarrow> fetch_result) \<Rightarrow> string \<Rightarrow> string \<Rightarrow> (text_cand \<Rightarrow> bool) \<Rightarrow> (attr_cand \<Rightarrow> bool)
     \<Rightarrow> bool \<Rightarrow> bool \<Rightarrow> node \<Rightarrow> page \<Rightarrow> request option \<times> page" where
  "translatePass collaborator lang apiKey keepText keepAttr isHead ancestorOptOut rootNode p =
     (let textNodes = filter keepText (collectTextNodes (document p) (translatedNodes p) isHead ancestorOptOut rootNode);
          attrNodes = filter keepAttr (collectAttributeNodes (document p) (translatedNodes p) isHead rootNode);
          ts = passTexts (document p) textNodes attrNodes
      in if length ts = 0 then (None, p)
         else
           case translateTexts collaborator lang apiKey ts (translationCache p) of
             (req, cache') \<Rightarrow> (req, applyTranslations ts textNodes attrNodes (p\<lparr>translationCache := cache'\<rparr>)))"

definition translateContent ::
  "(request \<Rightarrow> fetch_result) \<Rightarrow> string \<Rightarrow> string \<Rightarrow> bool \<Rightarrow> bool \<Rightarrow> node \<Rightarrow> page \<Rightarrow> request option \<times> page" where
  "translateContent collaborator lang apiKey isHead ancestorOptOut rootNode p =
     translatePass collaborator lang apiKey (\<lambda>n. True) (\<lambda>a. True) isHead ancestorOptOut rootNode p"

text \<open>
  The layout at the moment a pass starts: \<open>rectTop el\<close> is
  \<open>el.getBoundingClientRect().top\<close>, \<open>viewportHeight\<close> is \<open>window.innerHeight\<close>. Both are
  numbers; a layout never yields \<open>NaN\<close>.
\<close>

record layout =
  rectTop :: "node_id \<Rightarrow> real"
  viewportHeight :: real

definition visibleText :: "layout \<Rightarrow> text_cand \<Rightarrow> bool" where
  "visibleText l n = (rectTop l (t_parent n) < viewportHeight l + 200)"

definition visibleAttr :: "layout \<Rightarrow> attr_cand \<Rightarrow> bool" where
  "visibleAttr l a = (rectTop l (element a) < viewportHeight l + 200)"

definition belowFoldText :: "layout \<Rightarrow> text_cand \<Rightarrow> bool" where
  "belowFoldText l n = (rectTop l (t_parent n) \<ge> viewportHeight l + 200)"

definition belowFoldAttr :: "layout \<Rightarrow> attr_cand \<Rightarrow> bool" where
  "belowFoldAttr l a = (rectTop l (element a) \<ge> viewportHeight l + 200)"

definition translateVisibleContent ::
  "(request \<Rightarrow> fetch_result) \<Rightarrow> string \<Rightarrow> string \<Rightarrow> layout \<Rightarrow> bool \<Rightarrow> bool \<Rightarrow> node \<Rightarrow> page
     \<Rightarrow> request option \<times> page" where
  "translateVisibleContent collaborator lang apiKey l isHead ancestorOptOut rootNode p =
     translatePass collaborator lang apiKey (visibleText l) (visibleAttr l) isHead ancestorOptOut rootNode p"

definition translateBelowFoldContent ::
  "(request \<Rightarrow> fetch_result) \<Rightarrow> string \<Rightarrow> string \<Rightarrow> layout \<Rightarrow> bool \<Rightarrow> bool \<Rightarrow> node \<Rightarrow> page
     \<Rightarrow> request option \<times> page" where
  "translateBelowFoldContent collaborator lang apiKey l isHead ancestorOptOut rootNode p =
     translatePass collaborator lang apiKey (belowFoldText l) (belowFoldAttr l) isHead ancestorOptOut rootNode p"


text \<open>
  Notions the statements about a pass use. A cache maps a string to a translation when it
  maps it to a value different from the string; the cache of the script never holds an
  empty value, since \<open>translateTexts\<close> stores truthy values only. The identities of the text
  nodes and of the elements of a subtree.
\<close>

definition translatedIn :: "(string \<rightharpoonup> string) \<Rightarrow> string \<Rightarrow> bool" where
  "translatedIn c s = (case c s of None \<Rightarrow> False | Some v \<Rightarrow> v \<noteq> s)"

definition noEmptyValues :: "(string \<rightharpoonup> string) \<Rightarrow> bool" where
  "noEmptyValues c = (\<forall>s. c s \<noteq> Some [])"

fun textIds :: "node \<Rightarrow> node_id list" where
  "textIds (TextNode n) = [n]"
| "textIds (CommentNode n) = []"
| "textIds (Element el tag children) = concat (map textIds children)"

definition elementIds :: "node \<Rightarrow> node_id list" where
  "elementIds rootNode = map fst (elements rootNode)"

text \<open>The seven selectors of the head block of \<open>collectAttributeNodes\<close>, in its order.\<close>

definition metaSelectors :: "(string \<times> string) list" where
  "metaSelectors = [(''name'', ''title''), (''name'', ''description''), (''name'', ''keywords''),
     (''property'', ''og:title''), (''property'', ''og:description''),
     (''name'', ''twitter:title''), (''name'', ''twitter:description'')]"

text \<open>
  \<open>querySelectorAll('a[href]')\<close> below a root, and the body of the link loop for one link: the
  attribute is set only where \<open>rewriteHref\<close> yields a new value.
\<close>

definition linkElements :: "dom \<Rightarrow> node \<Rightarrow> node_id list" where
  "linkElements d rootNode =
     map fst (filter (\<lambda>(el, tag). tag = ''A'' \<and> getAttribute d el ''href'' \<noteq> None) (descendants rootNode))"

definition rewriteLink :: "string \<Rightarrow> dom \<Rightarrow> node_id \<Rightarrow> dom" where
  "rewriteLink lang d el =
     (case getAttribute d el ''href'' of
        None \<Rightarrow> d
      | Some href \<Rightarrow>
          if rewriteHref lang href \<noteq> href then setAttribute d el ''href'' (rewriteHref lang href) else d)"

definition rewriteLinks :: "string \<Rightarrow> node \<Rightarrow> dom \<Rightarrow> dom" where
  "rewriteLinks lang rootNode d = foldl (rewriteLink lang) d (linkElements d rootNode)"

text \<open>
  \<open>translateNewNodes(nodes)\<close>. A node of the list comes with the flag \<open>ancestorOptOut\<close> of
  its place in the document. The nodes were added below \<open>document.body\<close>, so
  \<open>root === document.head\<close> is false. When \<open>texts\<close> is empty the loop goes on with the next
  node (\<open>continue\<close>), past the link rewriting. The result lists the requests sent.
\<close>

fun translateNewNodes ::
  "(request \<Rightarrow> fetch_result) \<Rightarrow> string \<Rightarrow> string \<Rightarrow> (node \<times> bool) list \<Rightarrow> page
     \<Rightarrow> request option list \<times> page" where
  "translateNewNodes collaborator lang apiKey [] p = ([], p)"
| "translateNewNodes collaborator lang apiKey ((nd, ancestorOptOut) # nodes) p =
     (let textNodes = collectTextNodes (document p) (translatedNodes p) False ancestorOptOut nd;
          attrNodes = collectAttributeNodes (document p) (translatedNodes p) False nd
      in if length (passTexts (document p) textNodes attrNodes) = 0
         then translateNewNodes collaborator lang apiKey nodes p
         else
           case translatePass collaborator lang apiKey (\<lambda>n. True) (\<lambda>a. True) False ancestorOptOut nd p of
             (req, p1) \<Rightarrow>
               (case translateNewNodes collaborator lang apiKey nodes
                       (p1\<lparr>document := rewriteLinks lang nd (document p1)\<rparr>) of
                  (reqs, p2) \<Rightarrow> (req # reqs, p2)))"





section \<open>A sample page\<close>

text \<open>
  The body \<open><body><p>Hello</p><p>World</p><img alt="Hello" title="World"></body>\<close> at page
  load, with an empty cache and no translated node, and a collaborator that answers every
  batch with the single entry \<open>{original: "Hello", translated: "Bonjour"}\<close>.
\<close>

definition sampleBody :: node where
  "sampleBody =
     Element 1 ''BODY'' [Element 2 ''P'' [TextNode 3], Element 4 ''P'' [TextNode 5], Element 6 ''IMG'' []]"

definition sampleDom :: dom where
  "sampleDom =
     \<lparr>nodeValue = (\<lambda>n. [])(3 := ''Hello'', 5 := ''World''),
      attributes = (\<lambda>el. [])(6 := [(''alt'', ''Hello''), (''title'', ''World'')])\<rparr>"

definition samplePage :: page where
  "samplePage = \<lparr>document = sampleDom, translationCache = Map.empty, translatedNodes = {}\<rparr>"

definition helloCollaborator :: "request \<Rightarrow> fetch_result" where
  "helloCollaborator req = Data (Entries [(Some ''Hello'', Some ''Bonjour'')])"

section \<open>The edge side: string replacement\<close>

text \<open>
  The first occurrence of a pattern: the text before it and the text after it.
\<close>

fun splitFirst :: "string \<Rightarrow> string \<Rightarrow> (string \<times> string) option" where
  "splitFirst pat [] = (if pat = [] then Some ([], []) else None)"
| "splitFirst pat (c # cs) =
     (if startsWith (c # cs) pat then Some ([], drop (length pat) (c # cs))
      else case splitFirst pat cs of
             None \<Rightarrow> None
           | Some (before, after) \<Rightarrow> Some (c # before, after))"

text \<open>
  \<open>String.prototype.replace\<close> with a string pattern and a string replacement expands
  the replacement patterns of the language in the replacement text: \<open>$$\<close> is a dollar
  sign, \<open>$&\<close> the matched text, \<open>$`\<close> the text before the match, \<open>$'\<close> the text after
  it. A string pattern has no capture groups, so \<open>$1\<close> and \<open>$<name>\<close> stand for
  themselves, as does a dollar sign before any other character.
\<close>

fun getSubstitution :: "string \<Rightarrow> string \<Rightarrow> string \<Rightarrow> string \<Rightarrow> string" where
  "getSubstitution matched before after [] = []"
| "getSubstitution matched before after [c] = [c]"
| "getSubstitution matched before after (c # x # r) =
     (if c = CHR ''$'' \<and> x = CHR ''$'' then CHR ''$'' # getSubstitution matched before after r
      else if c = CHR ''$'' \<and> x = CHR ''&'' then matched @ getSubstitution matched before after r
      else if c = CHR ''$'' \<and> x = CHR 0x60 then before @ getSubstitution matched before after r
      else if c = CHR ''$'' \<and> x = CHR 0x27 then after @ getSubstitution matched before after r
      else c # getSubstitution matched before after (x # r))"

text \<open>\<open>s.replace(pat, replacement)\<close> for a string \<open>pat\<close>: the first occurrence only.\<close>

definition replaceString :: "string \<Rightarrow> string \<Rightarrow> string \<Rightarrow> string" where
  "replaceString pat replacement s =
     (case splitFirst pat s of
        None \<Rightarrow> s
      | Some (before, after) \<Rightarrow> before @ getSubstitution pat before after replacement @ after)"

text \<open>
  The leftmost match of the regular expression \<open>/<head[^>]*>/\<close>: the text before it, the
  match and the text after it. The expression matches at the first \<open><head\<close> that has a
  \<open>>\<close> somewhere after it, up to the first such \<open>>\<close>; when the first \<open><head\<close> has none,
  no later one has.
\<close>

definition matchHead :: "string \<Rightarrow> (string \<times> string \<times> string) option" where
  "matchHead s =
     (case splitFirst ''<head'' s of
        None \<Rightarrow> None
      | Some (before, rest) \<Rightarrow>
          if CHR ''>'' \<in> set rest
          then Some (before,
                     ''<head'' @ takeWhile (\<lambda>c. c \<noteq> CHR ''>'') rest @ ''>'',
                     tl (dropWhile (\<lambda>c. c \<noteq> CHR ''>'') rest))
          else None)"

text \<open>
  \<open>html.replace(/<head[^>]*>/, (match) => match + script)\<close>: what a replacer function
  returns is inserted as it is.
\<close>

definition insertAfterHead :: "string \<Rightarrow> string \<Rightarrow> string" where
  "insertAfterHead script html =
     (case matchHead html of
        None \<Rightarrow> html
      | Some (before, match, after) \<Rightarrow> before @ (match @ script) @ after)"


section \<open>The edge side: configuration\<close>

text \<open>
  The project configuration as the worker reads it: \<open>default_language\<close> and
  \<open>target_languages\<close> may be missing (\<open>None\<close>); when present, \<open>target_languages\<close> is an
  array of strings. \<open>languageNames\<close> is the object built by \<open>getLanguageNames\<close>.
\<close>

record projectConfig =
  default_language :: "string option"
  target_languages :: "string list option"

text \<open>\<open>projectConfig.default_language || 'en'\<close> and \<open>projectConfig.target_languages || []\<close>\<close>

definition defaultLangOf :: "projectConfig \<Rightarrow> string" where
  "defaultLangOf cfg = (if truthy (default_language cfg) then the (default_language cfg) else ''en'')"

definition targetLangsOf :: "projectConfig \<Rightarrow> string list" where
  "targetLangsOf cfg = (case target_languages cfg of None \<Rightarrow> [] | Some ls \<Rightarrow> ls)"

text \<open>
  \<open>JSON.stringify\<close> of an array of strings: each string in double quotes, with the
  quotation mark, the backslash and the control characters escaped.
\<close>

definition hexDigit :: "nat \<Rightarrow> char" where
  "hexDigit n = (''0123456789abcdef'' ! (n mod 16))"

definition jsonChar :: "char \<Rightarrow> string" where
  "jsonChar c =
     (if c = CHR 0x22 then [CHR 0x5C, CHR 0x22]
      else if c = CHR 0x5C then [CHR 0x5C, CHR 0x5C]
      else if c = CHR 0x08 then [CHR 0x5C, CHR ''b'']
      else if c = CHR 0x0C then [CHR 0x5C, CHR ''f'']
      else if c = CHR 0x0A then [CHR 0x5C, CHR ''n'']
      else if c = CHR 0x0D then [CHR 0x5C, CHR ''r'']
      else if c = CHR 0x09 then [CHR 0x5C, CHR ''t'']
      else if of_char c < (32 :: nat)
        then [CHR 0x5C, CHR ''u'', CHR ''0'', CHR ''0'', hexDigit (of_char c div 16), hexDigit (of_char c)]
      else [c])"

definition jsonString :: "string \<Rightarrow> string" where
  "jsonString s = [CHR 0x22] @ concat (map jsonChar s) @ [CHR 0x22]"

fun joinWith :: "string \<Rightarrow> string list \<Rightarrow> string" where
  "joinWith sep [] = []"
| "joinWith sep [x] = x"
| "joinWith sep (x # y # xs) = x @ sep @ joinWith sep (y # xs)"

definition jsonStringify :: "string list \<Rightarrow> string" where
  "jsonStringify xs = ''['' @ joinWith '','' (map jsonString xs) @ '']''"

text \<open>\<open>code.toUpperCase()\<close>, on ASCII letters.\<close>

definition toUpperCase :: "string \<Rightarrow> string" where
  "toUpperCase s =
     map (\<lambda>c. case map_of (zip ''abcdefghijklmnopqrstuvwxyz'' ''ABCDEFGHIJKLMNOPQRSTUVWXYZ'') c of
                Some u \<Rightarrow> u
              | None \<Rightarrow> c) s"

definition ALTIFIED_API :: string where
  "ALTIFIED_API = ''https://api.altified.com''"


section \<open>The edge side: the injected texts\<close>

text \<open>
  The template literals of the injectors, cut at their interpolations (and the longer
  pieces again at line ends). A character beyond ASCII is given by its UTF-8 bytes.
\<close>

definition detectScript_1 :: string where
  \<open>detectScript_1 =
     ''\<newline><script id="__ALTIFIED_AUTO_LANG_DETECT__">\<newline>(function() {\<newline>  // Check if we\'ve already done language detection this session\<newline>  if (sessionStorage.getItem(\'altified_lang_detected\')) {\<newline>    return;\<newline>  }\<newline>\<newline>  // Get browser language (e.g., "en-US" -> "en", "fr-FR" -> "fr")\<newline>  var browserLang = navigator.language || navigator.userLanguage;\<newline>  var langCode = browserLang.split(\'-\')[0].toLowerCase();\<newline>\<newline>  // Available target languages\<newline>  var targetLanguages = ''\<close>

definition detectScript_2 :: string where
  \<open>detectScript_2 =
     '';\<newline>  var defaultLanguage = '' @ [CHR 0x27]\<close>

definition detectScript_3 :: string where
  \<open>detectScript_3 =
     ''\';\<newline>\<newline>  // Mark as detected to avoid loops\<newline>  sessionStorage.setItem(\'altified_lang_detected\', \'true\');\<newline>\<newline>  // If browser language matches a target language (and it\'s not the default)\<newline>  if (targetLanguages.includes(langCode) && langCode !== defaultLanguage) {\<newline>    var currentPath = window.location.pathname;\<newline>    var newPath = \'/\' + langCode + currentPath;\<newline>    \<newline>    // Navigate to the language-specific path\<newline>    window.location.href = newPath + window.location.search + window.location.hash;\<newline>  }\<newline>  // Otherwise, stay on default language (do nothing)\<newline>})();\<newline></script>\<newline>''\<close>

definition engineScript_1 :: string where
  \<open>engineScript_1 =
     ''\<newline><style id="__ALTIFIED_BLUR__">\<newline>  html {\<newline>    filter: blur(8px);\<newline>    opacity: 0.6;\<newline>    transition: filter 0.3s ease-out, opacity 0.3s ease-out;\<newline>  }\<newline>  \<newline>  html.altified-translated {\<newline>    filter: none;\<newline>    opacity: 1;\<newline>  }\<newline></style>\<newline>\<newline><script id="__ALTIFIED_AUTO_TRANSLATE__">\<newline>(function() {\<newline>  window.__ALTIFIED_LANG__ = '' @ [CHR 0x27]\<close>

definition engineScript_2 :: string where
  \<open>engineScript_2 =
     ''\';\<newline>  window.__ALTIFIED_API_KEY__ = '' @ [CHR 0x27]\<close>

definition engineScript_3_a :: string where
  \<open>engineScript_3_a =
     ''\';\<newline>  \<newline>  const translationCache = new Map();\<newline>  const translatedNodes = new WeakSet();\<newline>  let isTranslating = false;\<newline>  \<newline>  // Initialize\<newline>  if (document.readyState === \'loading\') {\<newline>    document.addEventListener(\'DOMContentLoaded\', init);\<newline>  } else {\<newline>    init();\<newline>  }\<newline>  \<newline>  function init() {\<newline>    rewriteInternalLinks();\<newline>    translateAllContent();\<newline>    startObserver();\<newline>  }\<newline>  \<newline>  function removeBlur() {\<newline>    document.documentElement.classList.add(\'altified-translated\');\<newline>    // Remove blur style after transition completes\<newline>    setTimeout(function() {\<newline>      var blurStyle = document.getElementById(\'__ALTIFIED_BLUR__\');\<newline>      if (blurStyle) blurStyle.remove();\<newline>    }, 300);\<newline>  }\<newline>  \<newline>  // Parallel translation: head and visible body at the same time (FASTEST)\<newline>  async function translateAllContent() {\<newline>    if (isTranslating) return;\<newline>    isTranslating = true;\<newline>    \<newline>    try {\<newline>      // Translate head and visible body content in PARALLEL\<newline>      await Promise.all([\<newline>        translateContent(document.head),\<newline>        translateVisibleContent(document.body)\<newline>      ]);\<newline>      \<newline>      // Remove blur after both are done\<newline>''\<close>

definition engineScript_3_b :: string where
  \<open>engineScript_3_b =
     ''      removeBlur();\<newline>      \<newline>      // Translate remaining below-the-fold content in background\<newline>      await translateBelowFoldContent(document.body);\<newline>      \<newline>    } catch (error) {\<newline>      // Remove blur even on error\<newline>      removeBlur();\<newline>    }\<newline>    \<newline>    isTranslating = false;\<newline>  }\<newline>  \<newline>  // Translate only visible (above-the-fold) content\<newline>  async function translateVisibleContent(root) {\<newline>    const viewportHeight = window.innerHeight;\<newline>    const textNodes = collectTextNodes(root).filter(node => {\<newline>      const parent = node.parentElement;\<newline>      if (!parent) return false;\<newline>      \<newline>      const rect = parent.getBoundingClientRect();\<newline>      // Include elements that are visible or within 200px below viewport\<newline>      return rect.top < viewportHeight + 200;\<newline>    });\<newline>    \<newline>    const attrNodes = collectAttributeNodes(root).filter(a => {\<newline>      const rect = a.element.getBoundingClientRect();\<newline>      return rect.top < viewportHeight + 200;\<newline>    });\<newline>    \<newline>    const texts = [\<newline>      ...textNodes.map(n => n.nodeValue.trim()),\<newline>      ...attrNodes.map(a => a.text)\<newline>    ];\<newline>    \<newline>    if (texts.length === 0) return;\<newline>    \<newline>''\<close>

definition engineScript_3_c :: string where
  \<open>engineScript_3_c =
     ''    await translateTexts(texts);\<newline>    \<newline>    // Apply translations\<newline>    textNodes.forEach((node, i) => {\<newline>      const translated = translationCache.get(texts[i]);\<newline>      if (translated && translated !== texts[i]) {\<newline>        node.nodeValue = translated;\<newline>        translatedNodes.add(node);\<newline>      }\<newline>    });\<newline>    \<newline>    attrNodes.forEach((a, i) => {\<newline>      const translated = translationCache.get(texts[textNodes.length + i]);\<newline>      if (translated && translated !== texts[textNodes.length + i]) {\<newline>        a.element.setAttribute(a.attribute, translated);\<newline>        translatedNodes.add(a.element);\<newline>      }\<newline>    });\<newline>  }\<newline>  \<newline>  // Translate content below the fold\<newline>  async function translateBelowFoldContent(root) {\<newline>    const viewportHeight = window.innerHeight;\<newline>    const textNodes = collectTextNodes(root).filter(node => {\<newline>      const parent = node.parentElement;\<newline>      if (!parent) return false;\<newline>      \<newline>      const rect = parent.getBoundingClientRect();\<newline>      // Only elements below viewport + 200px buffer\<newline>      return rect.top >= viewportHeight + 200;\<newline>    });\<newline>    \<newline>''\<close>

definition engineScript_3_d :: string where
  \<open>engineScript_3_d =
     ''    const attrNodes = collectAttributeNodes(root).filter(a => {\<newline>      const rect = a.element.getBoundingClientRect();\<newline>      return rect.top >= viewportHeight + 200;\<newline>    });\<newline>    \<newline>    const texts = [\<newline>      ...textNodes.map(n => n.nodeValue.trim()),\<newline>      ...attrNodes.map(a => a.text)\<newline>    ];\<newline>    \<newline>    if (texts.length === 0) return;\<newline>    \<newline>    await translateTexts(texts);\<newline>    \<newline>    // Apply translations\<newline>    textNodes.forEach((node, i) => {\<newline>      const translated = translationCache.get(texts[i]);\<newline>      if (translated && translated !== texts[i]) {\<newline>        node.nodeValue = translated;\<newline>        translatedNodes.add(node);\<newline>      }\<newline>    });\<newline>    \<newline>    attrNodes.forEach((a, i) => {\<newline>      const translated = translationCache.get(texts[textNodes.length + i]);\<newline>      if (translated && translated !== texts[textNodes.length + i]) {\<newline>        a.element.setAttribute(a.attribute, translated);\<newline>        translatedNodes.add(a.element);\<newline>      }\<newline>    });\<newline>  }\<newline>  \<newline>  // Rewrite internal links to include language prefix\<newline>  function rewriteInternalLinks() {\<newline>    var links = document.querySelectorAll(\'a[href]\');\<newline>''\<close>

definition engineScript_3_e :: string where
  \<open>engineScript_3_e =
     ''    var langPrefix = \'/''\<close>

definition engineScript_3 :: string where
  "engineScript_3 = engineScript_3_a @ engineScript_3_b @ engineScript_3_c @ engineScript_3_d @ engineScript_3_e"

definition engineScript_4_a :: string where
  \<open>engineScript_4_a =
     ''\';\<newline>    \<newline>    links.forEach(function(link) {\<newline>      var href = link.getAttribute(\'href\');\<newline>      \<newline>      // Only rewrite relative internal links\<newline>      if (!href) return;\<newline>      if (href.startsWith(\'http://\') || href.startsWith(\'https://\')) return;\<newline>      if (href.startsWith(\'#\')) return;\<newline>      if (href.startsWith(\'mailto:\') || href.startsWith(\'tel:\')) return;\<newline>      \<newline>      // If link doesn\'t already have language prefix, add it\<newline>      if (!href.startsWith(langPrefix + \'/\') && href !== langPrefix) {\<newline>        var newHref;\<newline>        if (href === \'/\') {\<newline>          newHref = langPrefix;\<newline>        } else if (href.startsWith(\'/\')) {\<newline>          newHref = langPrefix + href;\<newline>        } else {\<newline>          // Handle relative paths (e.g., "about" or "./about")\<newline>          if (href.startsWith(\'./\')) {\<newline>            newHref = langPrefix + \'/\' + href.substring(2);\<newline>          } else {\<newline>            newHref = langPrefix + \'/\' + href;\<newline>          }\<newline>        }\<newline>        link.setAttribute(\'href\', newHref);\<newline>      }\<newline>    });\<newline>  }\<newline>  \<newline>  async function translateContent(root) {\<newline>    const textNodes = collectTextNodes(root);\<newline>''\<close>

definition engineScript_4_b :: string where
  \<open>engineScript_4_b =
     ''    const attrNodes = collectAttributeNodes(root);\<newline>    const texts = [\<newline>      ...textNodes.map(n => n.nodeValue.trim()),\<newline>      ...attrNodes.map(a => a.text)\<newline>    ];\<newline>    \<newline>    if (texts.length === 0) {\<newline>      return;\<newline>    }\<newline>    \<newline>    await translateTexts(texts);\<newline>    \<newline>    // Apply translations to text nodes\<newline>    textNodes.forEach((node, i) => {\<newline>      const translated = translationCache.get(texts[i]);\<newline>      if (translated && translated !== texts[i]) {\<newline>        node.nodeValue = translated;\<newline>        translatedNodes.add(node);\<newline>      }\<newline>    });\<newline>    \<newline>    // Apply translations to attributes\<newline>    attrNodes.forEach((a, i) => {\<newline>      const translated = translationCache.get(texts[textNodes.length + i]);\<newline>      if (translated && translated !== texts[textNodes.length + i]) {\<newline>        a.element.setAttribute(a.attribute, translated);\<newline>        translatedNodes.add(a.element);\<newline>      }\<newline>    });\<newline>  }\<newline>  \<newline>  function collectTextNodes(root) {\<newline>    const nodes = [];\<newline>    const walker = document.createTreeWalker(root, NodeFilter.SHOW_TEXT, null);\<newline>    let node;\<newline>    \<newline>    while ((node = walker.nextNode())) {\<newline>''\<close>

definition engineScript_4_c :: string where
  \<open>engineScript_4_c =
     ''      if (translatedNodes.has(node)) continue;\<newline>      \<newline>      const text = node.nodeValue.trim();\<newline>      const parent = node.parentElement;\<newline>      \<newline>      if (!text || !parent) continue;\<newline>      if (parent.closest(\'[translate="no"]\')) continue;\<newline>      \<newline>      const tagName = parent.tagName;\<newline>      if ([\'SCRIPT\', \'STYLE\', \'NOSCRIPT\', \'IFRAME\', \'CODE\', \'PRE\'].includes(tagName)) {\<newline>        continue;\<newline>      }\<newline>      \<newline>      // For <head>, also translate <title>\<newline>      if (root === document.head) {\<newline>        if ([\'TITLE\'].includes(tagName)) {\<newline>          nodes.push(node);\<newline>        }\<newline>      } else {\<newline>        nodes.push(node);\<newline>      }\<newline>    }\<newline>    \<newline>    return nodes;\<newline>  }\<newline>  \<newline>  function collectAttributeNodes(root) {\<newline>    const attrs = [];\<newline>    \<newline>    // Standard attributes to translate\<newline>    const elements = root.querySelectorAll(\'[alt], [title], [placeholder], [aria-label]\');\<newline>    \<newline>    elements.forEach(el => {\<newline>      [\'alt\', \'title\', \'placeholder\', \'aria-label\'].forEach(attr => {\<newline>        const val = el.getAttribute(attr);\<newline>        if (val && val.trim() && !translatedNodes.has(el)) {\<newline>''\<close>

definition engineScript_4_d :: string where
  \<open>engineScript_4_d =
     ''          attrs.push({ element: el, attribute: attr, text: val.trim() });\<newline>        }\<newline>      });\<newline>    });\<newline>    \<newline>    // FIXED: For <head>, translate ALL relevant meta tags (except site_name and author)\<newline>    if (root === document.head) {\<newline>      // Meta title\<newline>      const metaTitle = root.querySelector(\'meta[name="title"]\');\<newline>      if (metaTitle) {\<newline>        const content = metaTitle.getAttribute(\'content\');\<newline>        if (content && content.trim() && !translatedNodes.has(metaTitle)) {\<newline>          attrs.push({ element: metaTitle, attribute: \'content\', text: content.trim() });\<newline>        }\<newline>      }\<newline>      \<newline>      // Meta description\<newline>      const metaDesc = root.querySelector(\'meta[name="description"]\');\<newline>      if (metaDesc) {\<newline>        const content = metaDesc.getAttribute(\'content\');\<newline>        if (content && content.trim() && !translatedNodes.has(metaDesc)) {\<newline>          attrs.push({ element: metaDesc, attribute: \'content\', text: content.trim() });\<newline>        }\<newline>      }\<newline>      \<newline>      // Meta keywords\<newline>      const metaKeywords = root.querySelector(\'meta[name="keywords"]\');\<newline>      if (metaKeywords) {\<newline>''\<close>

definition engineScript_4_e :: string where
  \<open>engineScript_4_e =
     ''        const content = metaKeywords.getAttribute(\'content\');\<newline>        if (content && content.trim() && !translatedNodes.has(metaKeywords)) {\<newline>          attrs.push({ element: metaKeywords, attribute: \'content\', text: content.trim() });\<newline>        }\<newline>      }\<newline>      \<newline>      // Open Graph title\<newline>      const ogTitle = root.querySelector(\'meta[property="og:title"]\');\<newline>      if (ogTitle) {\<newline>        const content = ogTitle.getAttribute(\'content\');\<newline>        if (content && content.trim() && !translatedNodes.has(ogTitle)) {\<newline>          attrs.push({ element: ogTitle, attribute: \'content\', text: content.trim() });\<newline>        }\<newline>      }\<newline>      \<newline>      // Open Graph description\<newline>      const ogDesc = root.querySelector(\'meta[property="og:description"]\');\<newline>      if (ogDesc) {\<newline>        const content = ogDesc.getAttribute(\'content\');\<newline>        if (content && content.trim() && !translatedNodes.has(ogDesc)) {\<newline>          attrs.push({ element: ogDesc, attribute: \'content\', text: content.trim() });\<newline>        }\<newline>      }\<newline>      \<newline>      // ADDED: Twitter Card title\<newline>''\<close>

definition engineScript_4_f :: string where
  \<open>engineScript_4_f =
     ''      const twitterTitle = root.querySelector(\'meta[name="twitter:title"]\');\<newline>      if (twitterTitle) {\<newline>        const content = twitterTitle.getAttribute(\'content\');\<newline>        if (content && content.trim() && !translatedNodes.has(twitterTitle)) {\<newline>          attrs.push({ element: twitterTitle, attribute: \'content\', text: content.trim() });\<newline>        }\<newline>      }\<newline>      \<newline>      // ADDED: Twitter Card description\<newline>      const twitterDesc = root.querySelector(\'meta[name="twitter:description"]\');\<newline>      if (twitterDesc) {\<newline>        const content = twitterDesc.getAttribute(\'content\');\<newline>        if (content && content.trim() && !translatedNodes.has(twitterDesc)) {\<newline>          attrs.push({ element: twitterDesc, attribute: \'content\', text: content.trim() });\<newline>        }\<newline>      }\<newline>      \<newline>      // EXCLUDED: og:site_name and author are NOT translated (as requested)\<newline>      // These meta tags will remain in the original language\<newline>    }\<newline>    \<newline>    return attrs;\<newline>  }\<newline>  \<newline>  async function translateTexts(texts) {\<newline>    const toTranslate = texts.filter(t => !translationCache.has(t) || translationCache.get(t) === t);\<newline>    \<newline>''\<close>

definition engineScript_4_g :: string where
  \<open>engineScript_4_g =
     ''    if (toTranslate.length === 0) return;\<newline>    \<newline>    try {\<newline>      const res = await fetch('' @ [CHR 0x27]\<close>

definition engineScript_4 :: string where
  "engineScript_4 = engineScript_4_a @ engineScript_4_b @ engineScript_4_c @ engineScript_4_d @ engineScript_4_e @ engineScript_4_f @ engineScript_4_g"

definition engineScript_5 :: string where
  \<open>engineScript_5 =
     ''/translate/\', {\<newline>        method: \'POST\',\<newline>        headers: { \'Content-Type\': \'application/json\' },\<newline>        body: JSON.stringify({\<newline>          project_api_key: '' @ [CHR 0x27]\<close>

definition engineScript_6 :: string where
  \<open>engineScript_6 =
     ''\',\<newline>          language: '' @ [CHR 0x27]\<close>

definition engineScript_7_a :: string where
  \<open>engineScript_7_a =
     ''\',\<newline>          texts: toTranslate\<newline>        })\<newline>      });\<newline>      \<newline>      if (!res.ok) throw new Error(\'HTTP \' + res.status);\<newline>      \<newline>      const data = await res.json();\<newline>      \<newline>      if (data?.translations) {\<newline>        data.translations.forEach(t => {\<newline>          if (t?.original && t?.translated) {\<newline>            translationCache.set(t.original, t.translated);\<newline>          }\<newline>        });\<newline>      }\<newline>      \<newline>      return data;\<newline>    } catch (err) {\<newline>      return null;\<newline>    }\<newline>  }\<newline>  \<newline>  function startObserver() {\<newline>    const observer = new MutationObserver((mutations) => {\<newline>      const newNodes = [];\<newline>      \<newline>      // Collect only newly added nodes\<newline>      mutations.forEach(mutation => {\<newline>        mutation.addedNodes.forEach(node => {\<newline>          // Only process element nodes (not text nodes or comments)\<newline>          if (node.nodeType === Node.ELEMENT_NODE) {\<newline>            // Skip if this node or its parent was already translated\<newline>            if (!translatedNodes.has(node) && !node.closest(\'[translate="no"]\')) {\<newline>              newNodes.push(node);\<newline>            }\<newline>          }\<newline>        });\<newline>      });\<newline>      \<newline>''\<close>

definition engineScript_7_b :: string where
  \<open>engineScript_7_b =
     ''      // If we have new nodes, translate only those\<newline>      if (newNodes.length > 0) {\<newline>        translateNewNodes(newNodes);\<newline>      }\<newline>    });\<newline>    \<newline>    observer.observe(document.body, {\<newline>      childList: true,\<newline>      subtree: true\<newline>    });\<newline>  }\<newline>  \<newline>  // Translate only newly added nodes\<newline>  async function translateNewNodes(nodes) {\<newline>    for (const node of nodes) {\<newline>      // Collect text nodes and attributes from this new node only\<newline>      const textNodes = collectTextNodes(node);\<newline>      const attrNodes = collectAttributeNodes(node);\<newline>      \<newline>      const texts = [\<newline>        ...textNodes.map(n => n.nodeValue.trim()),\<newline>        ...attrNodes.map(a => a.text)\<newline>      ];\<newline>      \<newline>      if (texts.length === 0) continue;\<newline>      \<newline>      await translateTexts(texts);\<newline>      \<newline>      // Apply translations to text nodes\<newline>      textNodes.forEach((textNode, i) => {\<newline>        const translated = translationCache.get(texts[i]);\<newline>        if (translated && translated !== texts[i]) {\<newline>          textNode.nodeValue = translated;\<newline>          translatedNodes.add(textNode);\<newline>        }\<newline>      });\<newline>      \<newline>      // Apply translations to attributes\<newline>''\<close>

definition engineScript_7_c :: string where
  \<open>engineScript_7_c =
     ''      attrNodes.forEach((a, i) => {\<newline>        const translated = translationCache.get(texts[textNodes.length + i]);\<newline>        if (translated && translated !== texts[textNodes.length + i]) {\<newline>          a.element.setAttribute(a.attribute, translated);\<newline>          translatedNodes.add(a.element);\<newline>        }\<newline>      });\<newline>      \<newline>      // Rewrite links in the new node\<newline>      const links = node.querySelectorAll ? node.querySelectorAll(\'a[href]\') : [];\<newline>      links.forEach(function(link) {\<newline>        var href = link.getAttribute(\'href\');\<newline>        var langPrefix = \'/''\<close>

definition engineScript_7 :: string where
  "engineScript_7 = engineScript_7_a @ engineScript_7_b @ engineScript_7_c"

definition engineScript_8 :: string where
  \<open>engineScript_8 =
     ''\';\<newline>        \<newline>        if (!href) return;\<newline>        if (href.startsWith(\'http://\') || href.startsWith(\'https://\')) return;\<newline>        if (href.startsWith(\'#\')) return;\<newline>        if (href.startsWith(\'mailto:\') || href.startsWith(\'tel:\')) return;\<newline>        \<newline>        if (!href.startsWith(langPrefix + \'/\') && href !== langPrefix) {\<newline>          var newHref;\<newline>          if (href === \'/\') {\<newline>            newHref = langPrefix;\<newline>          } else if (href.startsWith(\'/\')) {\<newline>            newHref = langPrefix + href;\<newline>          } else {\<newline>            if (href.startsWith(\'./\')) {\<newline>              newHref = langPrefix + \'/\' + href.substring(2);\<newline>            } else {\<newline>              newHref = langPrefix + \'/\' + href;\<newline>            }\<newline>          }\<newline>          link.setAttribute(\'href\', newHref);\<newline>        }\<newline>      });\<newline>    }\<newline>  }\<newline>  \<newline>})();\<newline></script>\<newline>''\<close>

definition contextScript_1 :: string where
  \<open>contextScript_1 =
     ''\<newline><script id="__ALTIFIED_CONTEXT__">\<newline>  window.__ALTIFIED_LANG__ = '' @ [CHR 0x27]\<close>

definition contextScript_2 :: string where
  \<open>contextScript_2 =
     ''\';\<newline>  document.documentElement.lang = '' @ [CHR 0x27]\<close>

definition contextScript_3 :: string where
  \<open>contextScript_3 =
     ''\';\<newline></script>\<newline>''\<close>

definition hreflangDefault_1 :: string where
  \<open>hreflangDefault_1 =
     ''\<newline><link rel="alternate" hreflang="''\<close>

definition hreflangDefault_2 :: string where
  \<open>hreflangDefault_2 =
     ''" href="''\<close>

definition hreflangDefault_3 :: string where
  \<open>hreflangDefault_3 =
     ''''\<close>

definition hreflangDefault_4 :: string where
  \<open>hreflangDefault_4 =
     ''" />\<newline>''\<close>

definition hreflangTarget_1 :: string where
  \<open>hreflangTarget_1 =
     ''\<newline><link rel="alternate" hreflang="''\<close>

definition hreflangTarget_2 :: string where
  \<open>hreflangTarget_2 =
     ''" href="''\<close>

definition hreflangTarget_3 :: string where
  \<open>hreflangTarget_3 =
     ''/''\<close>

definition hreflangTarget_4 :: string where
  \<open>hreflangTarget_4 =
     ''''\<close>

definition hreflangTarget_5 :: string where
  \<open>hreflangTarget_5 =
     ''" />''\<close>

definition hreflangXDefault_1 :: string where
  \<open>hreflangXDefault_1 =
     ''\<newline><link rel="alternate" hreflang="x-default" href="''\<close>

definition hreflangXDefault_2 :: string where
  \<open>hreflangXDefault_2 =
     ''''\<close>

definition hreflangXDefault_3 :: string where
  \<open>hreflangXDefault_3 =
     ''" />\<newline>''\<close>

definition switcherStyle :: string where
  \<open>switcherStyle =
     ''\<newline><style>\<newline>.altified-lang-switcher { \<newline>  position: fixed; \<newline>  bottom: 20px; \<newline>  right: 20px; \<newline>  z-index: 999999; \<newline>  background: #fff; \<newline>  border: 1px solid #e5e7eb; \<newline>  border-radius: 8px; \<newline>  padding: 8px 12px; \<newline>  font-family: system-ui, sans-serif; \<newline>  box-shadow: 0 6px 16px rgba(0,0,0,.12);\<newline>}\<newline>.altified-lang-switcher select { \<newline>  border: none; \<newline>  outline: none; \<newline>  background: transparent; \<newline>  font-size: 14px; \<newline>  cursor: pointer;\<newline>  padding: 4px;\<newline>}\<newline></style>\<newline>\<newline><div class="altified-lang-switcher">\<newline>''\<close>

definition switcherSelectOpen :: string where
  \<open>switcherSelectOpen =
     ''  <select id="altified-lang-select">\<newline>    <option value="">'' @ [CHR 0xF0] @ [CHR 0x9F] @ [CHR 0x8C] @ [CHR 0x90] @ '' Language</option>\<newline>    ''\<close>

definition switcherSelectClose :: string where
  \<open>switcherSelectClose =
     ''\<newline>  </select>\<newline>''\<close>

definition switcherScript_1 :: string where
  \<open>switcherScript_1 =
     ''</div>\<newline>\<newline><script>\<newline>(function () {\<newline>  var select = document.getElementById(\'altified-lang-select\');\<newline>  if (!select) return;\<newline>\<newline>  var defaultLang = '' @ [CHR 0x27]\<close>

definition switcherScript_2 :: string where
  \<open>switcherScript_2 =
     ''\';\<newline>  var match = window.location.pathname.match(/^'' @ [CHR 0x5C] @ ''/([a-z]{2})('' @ [CHR 0x5C] @ ''/|$)/);\<newline>  var currentLang = match ? match[1] : defaultLang;\<newline>  select.value = currentLang;\<newline>\<newline>  select.addEventListener(\'change\', function () {\<newline>    var newLang = this.value;\<newline>    if (!newLang || newLang === currentLang) return;\<newline>\<newline>    var currentPath = window.location.pathname;\<newline>    var cleanPath = currentPath.replace(/^'' @ [CHR 0x5C] @ ''/[a-z]{2}('' @ [CHR 0x5C] @ ''/|$)/, \'/\');\<newline>    if (!cleanPath.startsWith(\'/\')) cleanPath = \'/\' + cleanPath;\<newline>    \<newline>    var newPath = newLang === defaultLang ? cleanPath : \'/\' + newLang + cleanPath;\<newline>    \<newline>    window.location.href = newPath + window.location.search + window.location.hash;\<newline>  });\<newline>})();\<newline></script>\<newline>''\<close>


section \<open>The edge side: the injectors\<close>

definition injectAutoLanguageDetection :: "string \<Rightarrow> projectConfig \<Rightarrow> string" where
  "injectAutoLanguageDetection html cfg =
     (if includes_str html ''__ALTIFIED_AUTO_LANG_DETECT__'' then html
      else
        let defaultLang = defaultLangOf cfg;
            targetLangs = jsonStringify (targetLangsOf cfg);
            script = detectScript_1 @ targetLangs @ detectScript_2 @ defaultLang @ detectScript_3
        in insertAfterHead script html)"

definition engineScript :: "string \<Rightarrow> string \<Rightarrow> string" where
  "engineScript lang apiKey =
     engineScript_1 @ lang @ engineScript_2 @ apiKey @ engineScript_3 @ lang @ engineScript_4
     @ ALTIFIED_API @ engineScript_5 @ apiKey @ engineScript_6 @ lang @ engineScript_7 @ lang
     @ engineScript_8"

definition injectAutoTranslation :: "string \<Rightarrow> string \<Rightarrow> string \<Rightarrow> string" where
  "injectAutoTranslation html lang apiKey =
     (if includes_str html ''__ALTIFIED_AUTO_TRANSLATE__'' then html
      else replaceString ''</head>'' (engineScript lang apiKey @ ''\<newline></head>'') html)"

definition injectLanguageContext :: "string \<Rightarrow> string \<Rightarrow> string" where
  "injectLanguageContext html lang =
     (if includes_str html ''__ALTIFIED_CONTEXT__'' then html
      else insertAfterHead (contextScript_1 @ lang @ contextScript_2 @ lang @ contextScript_3) html)"

text \<open>The \<open>link\<close> element that \<open>targetLangs.forEach\<close> appends for one language.\<close>

definition hreflangTarget :: "string \<Rightarrow> string \<Rightarrow> string \<Rightarrow> string" where
  "hreflangTarget origin pathname lang =
     hreflangTarget_1 @ lang @ hreflangTarget_2 @ origin @ hreflangTarget_3 @ lang @ hreflangTarget_4
     @ pathname @ hreflangTarget_5"

definition hreflangTags :: "string \<Rightarrow> string \<Rightarrow> string \<Rightarrow> string list \<Rightarrow> string" where
  "hreflangTags origin pathname defaultLang targetLangs =
     (hreflangDefault_1 @ defaultLang @ hreflangDefault_2 @ origin @ hreflangDefault_3 @ pathname
        @ hreflangDefault_4)
     @ concat (map (hreflangTarget origin pathname) targetLangs)
     @ (hreflangXDefault_1 @ origin @ hreflangXDefault_2 @ pathname @ hreflangXDefault_3)"

definition addHreflangLinks :: "string \<Rightarrow> string \<Rightarrow> projectConfig \<Rightarrow> string \<Rightarrow> string" where
  "addHreflangLinks html pathname cfg domain =
     (if includes_str html ''hreflang='' then html
      else
        let origin = domain;
            defaultLang = defaultLangOf cfg;
            targetLangs = targetLangsOf cfg;
            tags = hreflangTags origin pathname defaultLang targetLangs
        in replaceString ''</head>'' (tags @ ''\<newline></head>'') html)"

text \<open>\<open>languageNames[code] || code.toUpperCase()\<close>\<close>

definition getLanguageName :: "(string \<rightharpoonup> string) \<Rightarrow> string \<Rightarrow> string" where
  "getLanguageName languageNames code =
     (if truthy (languageNames code) then the (languageNames code) else toUpperCase code)"

definition languageOption :: "(string \<rightharpoonup> string) \<Rightarrow> string \<Rightarrow> string" where
  \<open>languageOption languageNames l =
     ''<option value="'' @ l @ ''">'' @ getLanguageName languageNames l @ ''</option>''\<close>

definition languageOptions :: "projectConfig \<Rightarrow> (string \<rightharpoonup> string) \<Rightarrow> string list" where
  "languageOptions cfg languageNames =
     languageOption languageNames (defaultLangOf cfg) # map (languageOption languageNames) (targetLangsOf cfg)"

definition injectLanguageSwitcher :: "string \<Rightarrow> projectConfig \<Rightarrow> (string \<rightharpoonup> string) \<Rightarrow> string" where
  "injectLanguageSwitcher html cfg languageNames =
     (if includes_str html ''altified-lang-switcher'' then html
      else
        let defaultLang = defaultLangOf cfg;
            switcher = switcherStyle @ switcherSelectOpen @ concat (languageOptions cfg languageNames)
                       @ switcherSelectClose @ switcherScript_1 @ defaultLang @ switcherScript_2
        in replaceString ''</body>'' (switcher @ ''\<newline></body>'') html)"


section \<open>The edge side: requests and responses\<close>

text \<open>
  A URL by its parts; \<open>url.toString()\<close> puts them together. A response with the fields the
  worker reads and sets; header names are in lower case, as \<open>Headers\<close> keeps them.
\<close>

record url =
  url_origin :: string
  url_pathname :: string
  url_search :: string

definition urlString :: "url \<Rightarrow> string" where
  "urlString u = url_origin u @ url_pathname u @ url_search u"

record response =
  status :: nat
  statusText :: string
  headers :: "(string \<times> string) list"
  body :: string

text \<open>\<open>response.ok\<close>\<close>

definition ok :: "response \<Rightarrow> bool" where
  "ok r = (200 \<le> status r \<and> status r \<le> 299)"

text \<open>\<open>response.headers.get('Content-Type') || ''\<close>\<close>

definition contentType :: "response \<Rightarrow> string" where
  "contentType r = (case map_of (headers r) ''content-type'' of None \<Rightarrow> [] | Some v \<Rightarrow> v)"

definition headersSet :: "(string \<times> string) list \<Rightarrow> string \<Rightarrow> string \<Rightarrow> (string \<times> string) list" where
  "headersSet hs name v = AList.update name v hs"

text \<open>
  The environment of the worker: \<open>env.ALTIFIED_API_KEY\<close> (\<open>None\<close> when it is not set) and
  \<open>env.DOMAIN\<close>.
\<close>

record env =
  ALTIFIED_API_KEY :: "string option"
  DOMAIN :: string

text \<open>
  \<open>handleTranslatedRequest\<close>. \<open>fetch\<close> is the network: the response to a URL, or \<open>None\<close> when
  the fetch rejects. \<open>pageCache\<close> is \<open>caches.default\<close>, keyed by the request URL and the
  \<open>X-Lang\<close> header of the cache key. The result is what the function returns (\<open>None\<close> when
  it rejects) and the entry it hands to \<open>cache.put\<close>, if any.
\<close>

definition handleTranslatedRequest ::
  "(string \<Rightarrow> response option) \<Rightarrow> (string \<times> string \<rightharpoonup> response) \<Rightarrow> url \<Rightarrow> string \<Rightarrow> string
     \<Rightarrow> env \<Rightarrow> projectConfig \<Rightarrow> (string \<rightharpoonup> string)
     \<Rightarrow> response option \<times> ((string \<times> string) \<times> response) option" where
  "handleTranslatedRequest fetch pageCache requestUrl lang originalPath e cfg languageNames =
     (let cacheKey = (urlString requestUrl, lang) in
      case pageCache cacheKey of
        Some cached \<Rightarrow> (Some cached, None)
      | None \<Rightarrow>
         (let originUrl = requestUrl\<lparr>url_pathname := (if originalPath = [] then ''/'' else originalPath)\<rparr> in
          case fetch (urlString originUrl) of
            None \<Rightarrow> (fetch (urlString requestUrl), None)
          | Some response \<Rightarrow>
              if \<not> ok response then (Some response, None)
              else if \<not> includes_str (contentType response) ''html'' then (Some response, None)
              else
                let html = body response;
                    html1 = injectAutoTranslation html lang (case ALTIFIED_API_KEY e of None \<Rightarrow> ''undefined'' | Some k \<Rightarrow> k);
                    html2 = injectLanguageContext html1 lang;
                    html3 = addHreflangLinks html2 (url_pathname originUrl) cfg (DOMAIN e);
                    html4 = injectLanguageSwitcher html3 cfg languageNames;
                    finalResponse =
                      \<lparr>status = status response, statusText = statusText response,
                       headers = headersSet (headersSet (headers response) ''content-language'' lang)
                                   ''cache-control'' ''public, max-age=3600'',
                       body = html4\<rparr>
                in (Some finalResponse, Some (cacheKey, finalResponse))))"

text \<open>
  \<open>handleDefaultLanguagePage\<close>: the request is fetched as it is; in the \<open>catch\<close> it is
  fetched again.
\<close>

definition handleDefaultLanguagePage ::
  "(string \<Rightarrow> response option) \<Rightarrow> url \<Rightarrow> projectConfig \<Rightarrow> (string \<rightharpoonup> string) \<Rightarrow> response option" where
  "handleDefaultLanguagePage fetch requestUrl cfg languageNames =
     (case fetch (urlString requestUrl) of
        None \<Rightarrow> fetch (urlString requestUrl)
      | Some response \<Rightarrow>
          if \<not> includes_str (contentType response) ''html'' then Some response
          else
            let html = body response;
                html1 = injectAutoLanguageDetection html cfg;
                html2 = injectLanguageSwitcher html1 cfg languageNames
            in Some \<lparr>status = status response, statusText = statusText response,
                     headers = headers response, body = html2\<rparr>)"




text \<open>
  A sample origin answer: status 404 with an HTML body.
\<close>

definition notFoundPage :: response where
  \<open>notFoundPage =
     \<lparr>status = 404, statusText = ''Not Found'',
      headers = [(''content-type'', ''text/html; charset=utf-8'')],
      body = ''<html><head><title>Not found</title></head><body><h1>Not found</h1></body></html>''\<rparr>\<close>

definition sampleConfig :: projectConfig where
  "sampleConfig = \<lparr>default_language = Some ''en'', target_languages = Some [''fr'', ''de'']\<rparr>"

section \<open>The edge side: sample requests\<close>

text \<open>
  Sample inputs for the statements about the pipelines: requests for \<open>/missing\<close> and
  \<open>/fr/about\<close> on \<open>https://example.com\<close>, an environment, language names, and origin
  answers for \<open>/about\<close>: a page that already carries the engine's script element, and an
  HTML document that leaves out the optional \<open>head\<close> and \<open>body\<close> tags. \<open>htmlBeforeLinks\<close>
  and \<open>htmlBeforeSwitcher\<close> are the values of \<open>html\<close> in \<open>handleTranslatedRequest\<close> when
  \<open>addHreflangLinks\<close> and \<open>injectLanguageSwitcher\<close> are called; \<open>deLink\<close> is the alternate
  link for \<open>de\<close> and the path \<open>/about\<close>.
\<close>

definition sampleUrl :: url where
  "sampleUrl = \<lparr>url_origin = ''https://example.com'', url_pathname = ''/missing'', url_search = []\<rparr>"












section \<open>Properties of the batch request\<close>

lemma startsWith_iff: "startsWith s p \<longleftrightarrow> (\<exists>r. s = p @ r)"
  by (induction s p rule: startsWith.induct) auto

lemma startsWith_append [simp]: "startsWith (p @ r) p"
  by (simp add: startsWith_iff)

lemma count_list_filter:
  "count_list (filter P xs) x = (if P x then count_list xs x else 0)"
  by (induction xs) auto

lemma sentTexts_translateTexts:
  "sentTexts (fst (translateTexts collaborator lang apiKey ts cache)) = toTranslate cache ts"
  by (simp add: translateTexts_def Let_def)

text \<open>
  \<open>translateTexts\<close> keeps every occurrence of a text that the cache does not map to a
  different value, and drops the others.
\<close>

lemma translateTexts_batch_counts:
  "count_list (sentTexts (fst (translateTexts collaborator lang apiKey ts cache))) s =
     (if cache s = None \<or> cache s = Some s then count_list ts s else 0)"
  by (simp add: sentTexts_translateTexts toTranslate_def count_list_filter)





lemma translated_not_in_batch:
  "cache s = Some v \<Longrightarrow> v \<noteq> s \<Longrightarrow> s \<notin> set (toTranslate cache ts)"
  by (simp add: toTranslate_def)


text \<open>
  With an empty cache the list \<open>["Hello", "Hello"]\<close> is sent as it is.
\<close>

lemma translateTexts_duplicate:
  "sentTexts (fst (translateTexts (\<lambda>req. NetworkError) ''fr'' ''key'' [''Hello'', ''Hello''] Map.empty))
     = [''Hello'', ''Hello'']"
  by (simp add: translateTexts_def toTranslate_def)






section \<open>Properties of link rewriting\<close>

lemma rewriteHref_external:
  "startsWith href ''http://'' \<or> startsWith href ''https://'' \<or> startsWith href ''#''
     \<or> startsWith href ''mailto:'' \<or> startsWith href ''tel:'' \<Longrightarrow> rewriteHref lang href = href"
  by (auto simp: rewriteHref_def Let_def)

lemma rewriteHref_prefixed:
  "rewriteHref lang href = href
     \<or> rewriteHref lang href = ''/'' @ lang
     \<or> startsWith (rewriteHref lang href) (''/'' @ lang @ ''/'')"
  by (auto simp: rewriteHref_def Let_def startsWith_iff)

lemma rewriteHref_stable:
  "h = ''/'' @ lang \<or> startsWith h (''/'' @ lang @ ''/'') \<Longrightarrow> rewriteHref lang h = h"
  by (auto simp: rewriteHref_def Let_def)

lemma rewriteHref_idem: "rewriteHref lang (rewriteHref lang href) = rewriteHref lang href"
proof -
  consider "rewriteHref lang href = href"
    | "rewriteHref lang href = ''/'' @ lang \<or> startsWith (rewriteHref lang href) (''/'' @ lang @ ''/'')"
    using rewriteHref_prefixed by blast
  then show ?thesis
  proof cases
    case 1
    then show ?thesis by simp
  next
    case 2
    then show ?thesis by (rule rewriteHref_stable)
  qed
qed

text \<open>
  C7 (the code at the failing input). A link whose path is already the locale prefix,
  followed directly by a query string, is neither equal to \<open>/fr\<close> nor does it start with
  \<open>/fr/\<close>, so the prefix is added a second time.
\<close>

theorem rewriteHref_double_prefix:
  "rewriteHref ''fr'' ''/fr?page=2'' = ''/fr/fr?page=2''"
  by (simp add: rewriteHref_def)


section \<open>Properties of extraction\<close>

lemma walkText_unmarked:
  "c \<in> set (walkText d marked isHead optOut parent tagName nd) \<Longrightarrow> t_node c \<notin> marked"
  by (induction nd arbitrary: optOut parent tagName) (auto split: if_splits)

lemma collectTextNodes_unmarked:
  "c \<in> set (collectTextNodes d marked isHead ancestorOptOut rootNode) \<Longrightarrow> t_node c \<notin> marked"
  by (auto simp: collectTextNodes_def split: node.splits dest: walkText_unmarked)

lemma attrCandidate_unmarked:
  "c \<in> set (attrCandidate d marked el attr) \<Longrightarrow> element c \<notin> marked"
  by (auto simp: attrCandidate_def split: option.splits if_splits)

lemma metaCandidate_unmarked:
  "c \<in> set (metaCandidate d marked rootNode key val) \<Longrightarrow> element c \<notin> marked"
  by (auto simp: metaCandidate_def split: option.splits dest: attrCandidate_unmarked)

lemma collectAttributeNodes_unmarked:
  "c \<in> set (collectAttributeNodes d marked isHead rootNode) \<Longrightarrow> element c \<notin> marked"
  by (auto simp: collectAttributeNodes_def split: if_splits
        dest: attrCandidate_unmarked metaCandidate_unmarked)

lemma applyTextNode_marked: "translatedNodes p \<subseteq> translatedNodes (applyTextNode ts p ni)"
  by (auto simp: applyTextNode_def Let_def split: prod.splits)

lemma applyAttrNode_marked: "translatedNodes p \<subseteq> translatedNodes (applyAttrNode ts k p ai)"
  by (auto simp: applyAttrNode_def Let_def split: prod.splits)

lemma foldl_applyTextNode_marked: "translatedNodes p \<subseteq> translatedNodes (foldl (applyTextNode ts) p xs)"
proof (induction xs arbitrary: p)
  case Nil
  show ?case by simp
next
  case (Cons x xs)
  show ?case using applyTextNode_marked [of p ts x] Cons [of "applyTextNode ts p x"] by auto
qed

lemma foldl_applyAttrNode_marked: "translatedNodes p \<subseteq> translatedNodes (foldl (applyAttrNode ts k) p xs)"
proof (induction xs arbitrary: p)
  case Nil
  show ?case by simp
next
  case (Cons x xs)
  show ?case using applyAttrNode_marked [of p ts k x] Cons [of "applyAttrNode ts k p x"] by auto
qed

lemma applyTranslations_marked:
  "translatedNodes p \<subseteq> translatedNodes (applyTranslations ts textNodes attrNodes p)"
  unfolding applyTranslations_def
  using foldl_applyTextNode_marked foldl_applyAttrNode_marked by (meson subset_trans)

lemma translatePass_marked:
  "translatedNodes p \<subseteq> translatedNodes (snd (translatePass collaborator lang apiKey keepText keepAttr isHead ancestorOptOut rootNode p))"
proof -
  have "translatedNodes p \<subseteq> translatedNodes (applyTranslations ts tn an (p\<lparr>translationCache := c\<rparr>))" for ts tn an c
    using applyTranslations_marked [of "p\<lparr>translationCache := c\<rparr>" ts tn an] by simp
  then show ?thesis
    by (simp add: translatePass_def Let_def split: prod.splits)
qed

lemma translateNewNodes_marked:
  "translatedNodes p \<subseteq> translatedNodes (snd (translateNewNodes collaborator lang apiKey nodes p))"
proof (induction nodes arbitrary: p)
  case Nil
  show ?case by simp
next
  case (Cons x nodes)
  obtain nd anc where x: "x = (nd, anc)" by (cases x)
  obtain req p1 where p1: "translatePass collaborator lang apiKey (\<lambda>n. True) (\<lambda>a. True) False anc nd p = (req, p1)"
    by (cases "translatePass collaborator lang apiKey (\<lambda>n. True) (\<lambda>a. True) False anc nd p")
  define p2 where "p2 = p1\<lparr>document := rewriteLinks lang nd (document p1)\<rparr>"
  obtain reqs p3 where p3: "translateNewNodes collaborator lang apiKey nodes p2 = (reqs, p3)"
    by (cases "translateNewNodes collaborator lang apiKey nodes p2")
  have a: "translatedNodes p \<subseteq> translatedNodes p1"
    using translatePass_marked [of p collaborator lang apiKey "\<lambda>n. True" "\<lambda>a. True" False anc nd] p1 by simp
  have b: "translatedNodes p1 \<subseteq> translatedNodes p3"
    using Cons [of p2] p3 by (simp add: p2_def)
  have c: "translatedNodes p \<subseteq> translatedNodes (snd (translateNewNodes collaborator lang apiKey nodes p))"
    by (rule Cons)
  show ?case
  proof (cases "length (passTexts (document p)
        (collectTextNodes (document p) (translatedNodes p) False anc nd)
        (collectAttributeNodes (document p) (translatedNodes p) False nd)) = 0")
    case True
    then show ?thesis using c x by (simp add: Let_def)
  next
    case False
    then have "snd (translateNewNodes collaborator lang apiKey (x # nodes) p) = p3"
      using x p1 p3 by (simp add: Let_def p2_def)
    then show ?thesis using a b by auto
  qed
qed

text \<open>
  C5. A node that is in \<open>translatedNodes\<close> is not among the candidates that
  \<open>collectTextNodes\<close> and \<open>collectAttributeNodes\<close> return, whatever subtree, head flag and
  opt-out context the extraction runs with; and it is still in \<open>translatedNodes\<close> after any
  pass and after any run of \<open>translateNewNodes\<close>, so the same holds for every later
  extraction.
\<close>

theorem marker_exclusion:
  assumes "n \<in> translatedNodes p"
  shows "n \<notin> t_node ` set (collectTextNodes (document p) (translatedNodes p) isHead ancestorOptOut rootNode)
    \<and> n \<notin> element ` set (collectAttributeNodes (document p) (translatedNodes p) isHead rootNode)
    \<and> n \<in> translatedNodes (snd (translatePass collaborator lang apiKey keepText keepAttr isHead' ancestorOptOut' rootNode' p))
    \<and> n \<in> translatedNodes (snd (translateNewNodes collaborator lang apiKey nodes p))"
proof (intro conjI)
  show "n \<notin> t_node ` set (collectTextNodes (document p) (translatedNodes p) isHead ancestorOptOut rootNode)"
    using assms collectTextNodes_unmarked by blast
  show "n \<notin> element ` set (collectAttributeNodes (document p) (translatedNodes p) isHead rootNode)"
    using assms collectAttributeNodes_unmarked by blast
  show "n \<in> translatedNodes (snd (translatePass collaborator lang apiKey keepText keepAttr isHead' ancestorOptOut' rootNode' p))"
    using assms translatePass_marked by blast
  show "n \<in> translatedNodes (snd (translateNewNodes collaborator lang apiKey nodes p))"
    using assms translateNewNodes_marked by blast
qed








lemma applyTextNode_frame:
  "translationCache (applyTextNode ts p ni) = translationCache p
   \<and> attributes (document (applyTextNode ts p ni)) = attributes (document p)"
  by (simp add: applyTextNode_def Let_def setNodeValue_def split: prod.splits)

lemma foldl_applyTextNode_frame:
  "translationCache (foldl (applyTextNode ts) p xs) = translationCache p
   \<and> attributes (document (foldl (applyTextNode ts) p xs)) = attributes (document p)"
  by (induction xs arbitrary: p) (simp_all add: applyTextNode_frame)

lemma applyTextNode_cases:
  "applyTextNode ts p (n, i) =
     (if translatedIn (translationCache p) (ts ! i) \<and> translationCache p (ts ! i) \<noteq> Some []
      then p\<lparr>document := setNodeValue (document p) (t_node n) (the (translationCache p (ts ! i))),
             translatedNodes := insert (t_node n) (translatedNodes p)\<rparr>
      else p)"
  by (cases "translationCache p (ts ! i)") (auto simp: applyTextNode_def Let_def translatedIn_def)

lemma foldl_applyTextNode_marked_eq:
  assumes "noEmptyValues (translationCache p)"
  shows "translatedNodes (foldl (applyTextNode ts) p xs) =
     translatedNodes p \<union> {t_node n |n i. (n, i) \<in> set xs \<and> translatedIn (translationCache p) (ts ! i)}"
  using assms
proof (induction xs rule: rev_induct)
  case Nil
  show ?case by simp
next
  case (snoc x xs)
  obtain n i where x: "x = (n, i)" by (cases x)
  let ?q = "foldl (applyTextNode ts) p xs"
  have c: "translationCache ?q = translationCache p"
    by (simp add: foldl_applyTextNode_frame)
  have ne: "translationCache p (ts ! i) \<noteq> Some []"
    using snoc.prems by (simp add: noEmptyValues_def)
  show ?case
    using snoc.IH [OF snoc.prems] x c ne by (auto simp: applyTextNode_cases)
qed

lemma foldl_applyTextNode_untouched:
  assumes "\<forall>(n, i) \<in> set xs. t_node n = k \<longrightarrow> \<not> translatedIn (translationCache p) (ts ! i)"
  shows "nodeValue (document (foldl (applyTextNode ts) p xs)) k = nodeValue (document p) k"
  using assms
proof (induction xs rule: rev_induct)
  case Nil
  show ?case by simp
next
  case (snoc x xs)
  obtain n i where x: "x = (n, i)" by (cases x)
  let ?q = "foldl (applyTextNode ts) p xs"
  have c: "translationCache ?q = translationCache p"
    by (simp add: foldl_applyTextNode_frame)
  have ih: "nodeValue (document ?q) k = nodeValue (document p) k"
    using snoc by simp
  show ?case
    using ih x c snoc.prems by (auto simp: applyTextNode_cases setNodeValue_def)
qed

lemma foldl_applyTextNode_written:
  assumes "(n, i) \<in> set xs" and "translatedIn (translationCache p) (ts ! i)"
    and "noEmptyValues (translationCache p)"
    and "\<forall>(m, j) \<in> set xs. t_node m = t_node n \<longrightarrow> ts ! j = ts ! i"
  shows "nodeValue (document (foldl (applyTextNode ts) p xs)) (t_node n) = the (translationCache p (ts ! i))"
  using assms
proof (induction xs rule: rev_induct)
  case Nil
  then show ?case by simp
next
  case (snoc x xs)
  obtain m j where x: "x = (m, j)" by (cases x)
  let ?q = "foldl (applyTextNode ts) p xs"
  have c: "translationCache ?q = translationCache p"
    by (simp add: foldl_applyTextNode_frame)
  have ne: "translationCache p s \<noteq> Some []" for s
    using snoc.prems(3) by (simp add: noEmptyValues_def)
  show ?case
  proof (cases "t_node m = t_node n")
    case True
    then have "ts ! j = ts ! i" using snoc.prems(4) x by auto
    then show ?thesis
      using x c True snoc.prems(2) ne by (simp add: applyTextNode_cases setNodeValue_def)
  next
    case False
    then have "(n, i) \<in> set xs" using snoc.prems(1) x by auto
    then have "nodeValue (document ?q) (t_node n) = the (translationCache p (ts ! i))"
      using snoc.IH snoc.prems by auto
    then show ?thesis
      using x c False by (simp add: applyTextNode_cases setNodeValue_def)
  qed
qed

lemma getAttribute_setAttribute:
  "getAttribute (setAttribute d el name v) e k =
     (if e = el \<and> k = name then Some v else getAttribute d e k)"
  by (simp add: getAttribute_def setAttribute_def update_conv')

lemma applyAttrNode_cases:
  "applyAttrNode ts off p (a, i) =
     (if translatedIn (translationCache p) (ts ! (off + i)) \<and> translationCache p (ts ! (off + i)) \<noteq> Some []
      then p\<lparr>document := setAttribute (document p) (element a) (attribute a)
                            (the (translationCache p (ts ! (off + i)))),
             translatedNodes := insert (element a) (translatedNodes p)\<rparr>
      else p)"
  by (cases "translationCache p (ts ! (off + i))") (auto simp: applyAttrNode_def Let_def translatedIn_def)

lemma foldl_applyAttrNode_frame:
  "translationCache (foldl (applyAttrNode ts off) p xs) = translationCache p
   \<and> nodeValue (document (foldl (applyAttrNode ts off) p xs)) = nodeValue (document p)"
proof (induction xs arbitrary: p)
  case Nil
  show ?case by simp
next
  case (Cons x xs)
  obtain a i where x: "x = (a, i)" by (cases x)
  show ?case
    using Cons [of "applyAttrNode ts off p x"] x
    by (simp add: applyAttrNode_cases setAttribute_def)
qed

lemma foldl_applyAttrNode_marked_eq:
  assumes "noEmptyValues (translationCache p)"
  shows "translatedNodes (foldl (applyAttrNode ts off) p xs) =
     translatedNodes p \<union> {element a |a i. (a, i) \<in> set xs \<and> translatedIn (translationCache p) (ts ! (off + i))}"
  using assms
proof (induction xs rule: rev_induct)
  case Nil
  show ?case by simp
next
  case (snoc x xs)
  obtain a i where x: "x = (a, i)" by (cases x)
  let ?q = "foldl (applyAttrNode ts off) p xs"
  have c: "translationCache ?q = translationCache p"
    by (simp add: foldl_applyAttrNode_frame)
  have ne: "translationCache p (ts ! (off + i)) \<noteq> Some []"
    using snoc.prems by (simp add: noEmptyValues_def)
  show ?case
    using snoc.IH [OF snoc.prems] x c ne by (auto simp: applyAttrNode_cases)
qed

lemma foldl_applyAttrNode_element_untouched:
  assumes "\<forall>(a, i) \<in> set xs. element a = e \<longrightarrow> \<not> translatedIn (translationCache p) (ts ! (off + i))"
  shows "attributes (document (foldl (applyAttrNode ts off) p xs)) e = attributes (document p) e"
  using assms
proof (induction xs rule: rev_induct)
  case Nil
  show ?case by simp
next
  case (snoc x xs)
  obtain a i where x: "x = (a, i)" by (cases x)
  let ?q = "foldl (applyAttrNode ts off) p xs"
  have c: "translationCache ?q = translationCache p"
    by (simp add: foldl_applyAttrNode_frame)
  have ih: "attributes (document ?q) e = attributes (document p) e"
    using snoc by simp
  show ?case
    using ih x c snoc.prems by (auto simp: applyAttrNode_cases setAttribute_def)
qed

lemma foldl_applyAttrNode_untouched:
  assumes "\<forall>(a, i) \<in> set xs. element a = e \<and> attribute a = k
             \<longrightarrow> \<not> translatedIn (translationCache p) (ts ! (off + i))"
  shows "getAttribute (document (foldl (applyAttrNode ts off) p xs)) e k = getAttribute (document p) e k"
  using assms
proof (induction xs rule: rev_induct)
  case Nil
  show ?case by simp
next
  case (snoc x xs)
  obtain a i where x: "x = (a, i)" by (cases x)
  let ?q = "foldl (applyAttrNode ts off) p xs"
  have c: "translationCache ?q = translationCache p"
    by (simp add: foldl_applyAttrNode_frame)
  have ih: "getAttribute (document ?q) e k = getAttribute (document p) e k"
    using snoc by simp
  show ?case
    using ih x c snoc.prems by (auto simp: applyAttrNode_cases getAttribute_setAttribute)
qed

lemma foldl_applyAttrNode_other_names:
  assumes "\<forall>(a, i) \<in> set xs. attribute a \<noteq> k"
  shows "getAttribute (document (foldl (applyAttrNode ts off) p xs)) e k = getAttribute (document p) e k"
  by (rule foldl_applyAttrNode_untouched) (use assms in auto)

lemma foldl_applyAttrNode_written:
  assumes "(a, i) \<in> set xs" and "translatedIn (translationCache p) (ts ! (off + i))"
    and "noEmptyValues (translationCache p)"
    and "\<forall>(b, j) \<in> set xs. element b = element a \<and> attribute b = attribute a
           \<longrightarrow> ts ! (off + j) = ts ! (off + i)"
  shows "getAttribute (document (foldl (applyAttrNode ts off) p xs)) (element a) (attribute a)
           = translationCache p (ts ! (off + i))"
  using assms
proof (induction xs rule: rev_induct)
  case Nil
  then show ?case by simp
next
  case (snoc x xs)
  obtain b j where x: "x = (b, j)" by (cases x)
  let ?q = "foldl (applyAttrNode ts off) p xs"
  have c: "translationCache ?q = translationCache p"
    by (simp add: foldl_applyAttrNode_frame)
  have ne: "translationCache p s \<noteq> Some []" for s
    using snoc.prems(3) by (simp add: noEmptyValues_def)
  have some: "Some (the (translationCache p (ts ! (off + i)))) = translationCache p (ts ! (off + i))"
    using snoc.prems(2) by (auto simp: translatedIn_def split: option.splits)
  show ?case
  proof (cases "element b = element a \<and> attribute b = attribute a")
    case True
    then have "ts ! (off + j) = ts ! (off + i)" using snoc.prems(4) x by auto
    then show ?thesis
      using x c True snoc.prems(2) ne some
      by (simp add: applyAttrNode_cases getAttribute_setAttribute)
  next
    case False
    then have "(a, i) \<in> set xs" using snoc.prems(1) x by auto
    then have "getAttribute (document ?q) (element a) (attribute a) = translationCache p (ts ! (off + i))"
      using snoc.IH snoc.prems by auto
    then show ?thesis
      using x c False by (auto simp: applyAttrNode_cases getAttribute_setAttribute)
  qed
qed

lemma passTexts_text:
  assumes "(n, i) \<in> set (zip textNodes [0..<length textNodes])"
  shows "passTexts d textNodes attrNodes ! i = trim (nodeValue d (t_node n))"
proof -
  have "i < length textNodes" and "textNodes ! i = n"
    using assms by (auto simp: set_zip)
  then show ?thesis by (simp add: passTexts_def nth_append)
qed

lemma passTexts_attr:
  assumes "(a, i) \<in> set (zip attrNodes [0..<length attrNodes])"
  shows "passTexts d textNodes attrNodes ! (length textNodes + i) = a_text a"
proof -
  have "i < length attrNodes" and "attrNodes ! i = a"
    using assms by (auto simp: set_zip)
  then show ?thesis by (simp add: passTexts_def nth_append)
qed

lemma in_zip_upt: "x \<in> set xs \<Longrightarrow> \<exists>i. (x, i) \<in> set (zip xs [0..<length xs])"
  by (auto simp: set_zip in_set_conv_nth)

lemma zip_upt_fst: "(x, i) \<in> set (zip xs [0..<length xs]) \<Longrightarrow> x \<in> set xs"
  by (auto simp: set_zip)

lemma walkText_textIds:
  "c \<in> set (walkText d marked isHead optOut parent tagName nd) \<Longrightarrow> t_node c \<in> set (textIds nd)"
proof (induction nd arbitrary: optOut parent tagName)
  case (TextNode n)
  then show ?case by (auto split: if_splits)
next
  case (CommentNode n)
  then show ?case by simp
next
  case (Element el tag children)
  then obtain ch where "ch \<in> set children"
    and "c \<in> set (walkText d marked isHead (optOut \<or> translateNo (attributes d el)) el tag ch)"
    by auto
  then have "t_node c \<in> set (textIds ch)" using Element.IH by blast
  then show ?case using \<open>ch \<in> set children\<close> by auto
qed

lemma collectTextNodes_textIds:
  "c \<in> set (collectTextNodes d marked isHead ancestorOptOut rootNode) \<Longrightarrow> t_node c \<in> set (textIds rootNode)"
  by (auto simp: collectTextNodes_def split: node.splits dest: walkText_textIds)

lemma descendants_elements: "set (descendants nd) \<subseteq> set (elements nd)"
  by (cases nd) auto

lemma attrCandidate_props:
  assumes "c \<in> set (attrCandidate d marked el attr)"
  shows "element c = el" and "attribute c = attr"
    and "getAttribute d el attr \<noteq> None" and "a_text c = trim (the (getAttribute d el attr))"
proof -
  obtain v where v: "getAttribute d el attr = Some v"
    using assms by (cases "getAttribute d el attr") (auto simp: attrCandidate_def)
  then have c: "c = \<lparr>element = el, attribute = attr, a_text = trim v\<rparr>"
    using assms by (auto simp: attrCandidate_def split: if_splits)
  show "element c = el" and "attribute c = attr"
    and "getAttribute d el attr \<noteq> None" and "a_text c = trim (the (getAttribute d el attr))"
    using c v by simp_all
qed

lemma metaCandidate_props:
  assumes "c \<in> set (metaCandidate d marked rootNode key val)"
  shows "element c \<in> set (elementIds rootNode)" and "attribute c = ''content''"
    and "a_text c = trim (the (getAttribute d (element c) (attribute c)))"
proof -
  obtain x where f0: "find (\<lambda>(el, tag). tag = ''META'' \<and> getAttribute d el key = Some val) (descendants rootNode) = Some x"
    using assms
    by (cases "find (\<lambda>(el, tag). tag = ''META'' \<and> getAttribute d el key = Some val) (descendants rootNode)")
       (auto simp: metaCandidate_def)
  obtain el tag where x: "x = (el, tag)" by (cases x)
  have f: "find (\<lambda>(el, tag). tag = ''META'' \<and> getAttribute d el key = Some val) (descendants rootNode) = Some (el, tag)"
    using f0 x by simp
  have c: "c \<in> set (attrCandidate d marked el ''content'')"
    using assms f by (simp add: metaCandidate_def)
  have "(el, tag) \<in> set (descendants rootNode)"
    using f by (metis find_Some_iff nth_mem)
  then have "el \<in> set (elementIds rootNode)"
    using descendants_elements [of rootNode] by (force simp: elementIds_def)
  then show "element c \<in> set (elementIds rootNode)"
    using attrCandidate_props(1) [OF c] by simp
  show "attribute c = ''content''"
    using attrCandidate_props(2) [OF c] by simp
  show "a_text c = trim (the (getAttribute d (element c) (attribute c)))"
    using attrCandidate_props [OF c] by simp
qed

lemma attributeElements_elementIds: "set (attributeElements d rootNode) \<subseteq> set (elementIds rootNode)"
  using descendants_elements [of rootNode] by (force simp: attributeElements_def elementIds_def)

lemma collectAttributeNodes_alt:
  "collectAttributeNodes d marked isHead rootNode =
     concat (map (\<lambda>el. concat (map (attrCandidate d marked el) standardAttributes))
               (attributeElements d rootNode))
     @ (if isHead then concat (map (\<lambda>(key, val). metaCandidate d marked rootNode key val) metaSelectors)
        else [])"
  by (simp add: collectAttributeNodes_def metaSelectors_def)

lemma collectAttributeNodes_cases:
  assumes "c \<in> set (collectAttributeNodes d marked isHead rootNode)"
  shows "(\<exists>el attr. el \<in> set (attributeElements d rootNode) \<and> attr \<in> set standardAttributes
            \<and> c \<in> set (attrCandidate d marked el attr))
         \<or> (isHead \<and> (\<exists>key val. (key, val) \<in> set metaSelectors
               \<and> c \<in> set (metaCandidate d marked rootNode key val)))"
  using assms unfolding collectAttributeNodes_alt
  by (auto split: if_splits)

lemma collectAttributeNodes_props:
  assumes "c \<in> set (collectAttributeNodes d marked isHead rootNode)"
  shows "element c \<in> set (elementIds rootNode)"
    and "attribute c \<in> set (''content'' # standardAttributes)"
    and "a_text c = trim (the (getAttribute d (element c) (attribute c)))"
proof -
  consider el attr where "el \<in> set (attributeElements d rootNode)" "attr \<in> set standardAttributes"
      "c \<in> set (attrCandidate d marked el attr)"
    | key val where "c \<in> set (metaCandidate d marked rootNode key val)"
    using collectAttributeNodes_cases [OF assms] by blast
  then have "element c \<in> set (elementIds rootNode)
      \<and> attribute c \<in> set (''content'' # standardAttributes)
      \<and> a_text c = trim (the (getAttribute d (element c) (attribute c)))"
  proof cases
    case 1
    then show ?thesis
      using attrCandidate_props [OF 1(3)] attributeElements_elementIds [of d rootNode] by auto
  next
    case 2
    then show ?thesis
      using metaCandidate_props [OF 2] by simp
  qed
  then show "element c \<in> set (elementIds rootNode)"
    and "attribute c \<in> set (''content'' # standardAttributes)"
    and "a_text c = trim (the (getAttribute d (element c) (attribute c)))"
    by simp_all
qed

lemma walkText_stable:
  assumes "c \<in> set (walkText d marked isHead optOut parent tagName nd)"
    and "t_node c \<notin> marked'"
    and "nodeValue d' (t_node c) = nodeValue d (t_node c)"
    and "\<And>e. translateNo (attributes d' e) = translateNo (attributes d e)"
  shows "c \<in> set (walkText d' marked' isHead optOut parent tagName nd)"
  using assms(1)
proof (induction nd arbitrary: optOut parent tagName)
  case (TextNode n)
  then have "t_node c = n" by (auto split: if_splits)
  then show ?case using TextNode assms(2,3) by (auto split: if_splits)
next
  case (CommentNode n)
  then show ?case by simp
next
  case (Element el tag children)
  then obtain ch where ch: "ch \<in> set children"
    and "c \<in> set (walkText d marked isHead (optOut \<or> translateNo (attributes d el)) el tag ch)"
    by auto
  then have "c \<in> set (walkText d' marked' isHead (optOut \<or> translateNo (attributes d el)) el tag ch)"
    using Element.IH by blast
  then show ?case using ch assms(4) by auto
qed

lemma collectTextNodes_stable:
  assumes "c \<in> set (collectTextNodes d marked isHead ancestorOptOut rootNode)"
    and "t_node c \<notin> marked'"
    and "nodeValue d' (t_node c) = nodeValue d (t_node c)"
    and "\<And>e. translateNo (attributes d' e) = translateNo (attributes d e)"
  shows "c \<in> set (collectTextNodes d' marked' isHead ancestorOptOut rootNode)"
proof (cases rootNode)
  case (Element el tag children)
  then have "c \<in> set (walkText d marked isHead ancestorOptOut el tag rootNode)"
    using assms(1) by (simp add: collectTextNodes_def)
  then have "c \<in> set (walkText d' marked' isHead ancestorOptOut el tag rootNode)"
    using assms(2,3,4) by (rule walkText_stable)
  then show ?thesis
    using Element by (simp add: collectTextNodes_def)
qed (use assms(1) in \<open>simp_all add: collectTextNodes_def\<close>)

lemma attrCandidate_stable:
  assumes "c \<in> set (attrCandidate d marked el attr)"
    and "el \<notin> marked'" and "attributes d' el = attributes d el"
  shows "c \<in> set (attrCandidate d' marked' el attr)"
proof -
  have "getAttribute d' el attr = getAttribute d el attr"
    using assms(3) by (simp add: getAttribute_def)
  then show ?thesis
    using assms(1,2) by (auto simp: attrCandidate_def split: option.splits if_splits)
qed

lemma collectAttributeNodes_stable:
  assumes "c \<in> set (collectAttributeNodes d marked isHead rootNode)"
    and "element c \<notin> marked'"
    and "attributes d' (element c) = attributes d (element c)"
    and "\<And>e. getAttribute d' e ''name'' = getAttribute d e ''name''"
    and "\<And>e. getAttribute d' e ''property'' = getAttribute d e ''property''"
  shows "c \<in> set (collectAttributeNodes d' marked' isHead rootNode)"
proof -
  consider el attr where "el \<in> set (attributeElements d rootNode)" "attr \<in> set standardAttributes"
      "c \<in> set (attrCandidate d marked el attr)"
    | key val where "isHead" "(key, val) \<in> set metaSelectors"
      "c \<in> set (metaCandidate d marked rootNode key val)"
    using collectAttributeNodes_cases [OF assms(1)] by blast
  then show ?thesis
  proof cases
    case 1
    have el: "element c = el" using attrCandidate_props(1) [OF 1(3)] .
    have same: "getAttribute d' el k = getAttribute d el k" for k
      using assms(3) el by (simp add: getAttribute_def)
    obtain tag where tag: "(el, tag) \<in> set (descendants rootNode)"
      and ex: "list_ex (\<lambda>attr. getAttribute d el attr \<noteq> None) standardAttributes"
      using 1(1) by (auto simp: attributeElements_def)
    have ex': "list_ex (\<lambda>attr. getAttribute d' el attr \<noteq> None) standardAttributes"
      using ex by (simp only: same)
    have "(el, tag) \<in> set (filter (\<lambda>(e, tag). list_ex (\<lambda>attr. getAttribute d' e attr \<noteq> None) standardAttributes) (descendants rootNode))"
      using tag ex' by simp
    then have "fst (el, tag) \<in> fst ` set (filter (\<lambda>(e, tag). list_ex (\<lambda>attr. getAttribute d' e attr \<noteq> None) standardAttributes) (descendants rootNode))"
      by (rule imageI)
    then have "el \<in> set (attributeElements d' rootNode)"
      by (simp add: attributeElements_def)
    moreover have "c \<in> set (attrCandidate d' marked' el attr)"
      using attrCandidate_stable [OF 1(3)] assms(2,3) el by simp
    ultimately show ?thesis
      using 1(2) unfolding collectAttributeNodes_alt by auto
  next
    case 2
    have key: "key = ''name'' \<or> key = ''property''"
      using 2(2) by (auto simp: metaSelectors_def)
    then have pred: "(\<lambda>(el, tag). tag = ''META'' \<and> getAttribute d' el key = Some val)
        = (\<lambda>(el, tag). tag = ''META'' \<and> getAttribute d el key = Some val)"
      using assms(4,5) by auto
    obtain x where f: "find (\<lambda>(el, tag). tag = ''META'' \<and> getAttribute d el key = Some val) (descendants rootNode) = Some x"
      using 2(3)
      by (cases "find (\<lambda>(el, tag). tag = ''META'' \<and> getAttribute d el key = Some val) (descendants rootNode)")
         (auto simp: metaCandidate_def)
    obtain el tag where x: "x = (el, tag)" by (cases x)
    have c: "c \<in> set (attrCandidate d marked el ''content'')"
      using 2(3) f x by (simp add: metaCandidate_def)
    have el: "element c = el" using attrCandidate_props(1) [OF c] .
    have "c \<in> set (attrCandidate d' marked' el ''content'')"
      using attrCandidate_stable [OF c] assms(2,3) el by simp
    then have "c \<in> set (metaCandidate d' marked' rootNode key val)"
      using f x pred by (simp add: metaCandidate_def)
    then show ?thesis
      using 2(1,2) unfolding collectAttributeNodes_alt by auto
  qed
qed

lemma setEntry_noEmptyValues: "noEmptyValues c \<Longrightarrow> noEmptyValues (setEntry c e)"
  by (cases "(c, e)" rule: setEntry.cases) (auto simp: noEmptyValues_def)

lemma foldl_setEntry_noEmptyValues: "noEmptyValues c \<Longrightarrow> noEmptyValues (foldl setEntry c es)"
  by (induction es arbitrary: c) (simp_all add: setEntry_noEmptyValues)

lemma mergeResponse_noEmptyValues: "noEmptyValues c \<Longrightarrow> noEmptyValues (mergeResponse r c)"
  by (cases "(r, c)" rule: mergeResponse.cases) (simp_all add: foldl_setEntry_noEmptyValues)

lemma translateTexts_noEmptyValues:
  "noEmptyValues c \<Longrightarrow> noEmptyValues (snd (translateTexts collaborator lang apiKey ts c))"
  by (simp add: translateTexts_def Let_def mergeResponse_noEmptyValues)

lemma applyTranslations_cache:
  "translationCache (applyTranslations ts T A pc) = translationCache pc"
  by (simp add: applyTranslations_def foldl_applyAttrNode_frame foldl_applyTextNode_frame)

lemma applyTranslations_marked_eq:
  assumes "noEmptyValues (translationCache pc)"
  shows "translatedNodes (applyTranslations (passTexts (document pc) T A) T A pc) =
     translatedNodes pc
     \<union> {t_node n |n. n \<in> set T \<and> translatedIn (translationCache pc) (trim (nodeValue (document pc) (t_node n)))}
     \<union> {element a |a. a \<in> set A \<and> translatedIn (translationCache pc) (a_text a)}"
proof -
  let ?ts = "passTexts (document pc) T A"
  let ?pt = "foldl (applyTextNode ?ts) pc (zip T [0..<length T])"
  have c: "translationCache ?pt = translationCache pc"
    by (simp add: foldl_applyTextNode_frame)
  have t: "{t_node n |n i. (n, i) \<in> set (zip T [0..<length T]) \<and> translatedIn (translationCache pc) (?ts ! i)}
      = {t_node n |n. n \<in> set T \<and> translatedIn (translationCache pc) (trim (nodeValue (document pc) (t_node n)))}"
    (is "?L = ?R")
  proof
    show "?L \<subseteq> ?R"
      using passTexts_text [of _ _ T "document pc" A] zip_upt_fst [of _ _ T] by fastforce
    show "?R \<subseteq> ?L"
      using passTexts_text [of _ _ T "document pc" A] in_zip_upt [of _ T] by fastforce
  qed
  have a: "{element a |a i. (a, i) \<in> set (zip A [0..<length A]) \<and> translatedIn (translationCache pc) (?ts ! (length T + i))}
      = {element a |a. a \<in> set A \<and> translatedIn (translationCache pc) (a_text a)}"
    (is "?L = ?R")
  proof
    show "?L \<subseteq> ?R"
      using passTexts_attr [of _ _ A "document pc" T] zip_upt_fst [of _ _ A] by fastforce
    show "?R \<subseteq> ?L"
      using passTexts_attr [of _ _ A "document pc" T] in_zip_upt [of _ A] by fastforce
  qed
  have "translatedNodes ?pt = translatedNodes pc \<union> {t_node n |n. n \<in> set T \<and> translatedIn (translationCache pc) (trim (nodeValue (document pc) (t_node n)))}"
    using foldl_applyTextNode_marked_eq [OF assms, of ?ts "zip T [0..<length T]"] t by simp
  moreover have "translatedNodes (foldl (applyAttrNode ?ts (length T)) ?pt (zip A [0..<length A]))
      = translatedNodes ?pt \<union> {element a |a. a \<in> set A \<and> translatedIn (translationCache pc) (a_text a)}"
    using foldl_applyAttrNode_marked_eq [of ?pt ?ts "length T" "zip A [0..<length A]"] assms c a by simp
  ultimately show ?thesis
    by (simp add: applyTranslations_def)
qed

lemma applyTranslations_text_written:
  assumes "noEmptyValues (translationCache pc)" and "n \<in> set T"
    and "translatedIn (translationCache pc) (trim (nodeValue (document pc) (t_node n)))"
  shows "Some (nodeValue (document (applyTranslations (passTexts (document pc) T A) T A pc)) (t_node n))
     = translationCache pc (trim (nodeValue (document pc) (t_node n)))"
proof -
  let ?ts = "passTexts (document pc) T A"
  let ?pt = "foldl (applyTextNode ?ts) pc (zip T [0..<length T])"
  obtain i where i: "(n, i) \<in> set (zip T [0..<length T])"
    using in_zip_upt [OF assms(2)] by blast
  have ti: "?ts ! i = trim (nodeValue (document pc) (t_node n))"
    using passTexts_text [OF i] .
  have same: "\<forall>(m, j) \<in> set (zip T [0..<length T]). t_node m = t_node n \<longrightarrow> ?ts ! j = ?ts ! i"
    using passTexts_text [of _ _ T "document pc" A] ti by fastforce
  have "nodeValue (document ?pt) (t_node n) = the (translationCache pc (?ts ! i))"
    using foldl_applyTextNode_written [OF i _ assms(1) same] assms(3) ti by simp
  moreover have "nodeValue (document (applyTranslations ?ts T A pc)) = nodeValue (document ?pt)"
    by (simp add: applyTranslations_def foldl_applyAttrNode_frame)
  ultimately show ?thesis
    using assms(3) ti by (auto simp: translatedIn_def split: option.splits)
qed

lemma applyTranslations_text_untouched:
  assumes "\<forall>m \<in> set T. t_node m = k \<longrightarrow> \<not> translatedIn (translationCache pc) (trim (nodeValue (document pc) (t_node m)))"
  shows "nodeValue (document (applyTranslations (passTexts (document pc) T A) T A pc)) k
     = nodeValue (document pc) k"
proof -
  let ?ts = "passTexts (document pc) T A"
  let ?pt = "foldl (applyTextNode ?ts) pc (zip T [0..<length T])"
  have "\<forall>(m, j) \<in> set (zip T [0..<length T]). t_node m = k \<longrightarrow> \<not> translatedIn (translationCache pc) (?ts ! j)"
    using passTexts_text [of _ _ T "document pc" A] zip_upt_fst [of _ _ T] assms by fastforce
  then have "nodeValue (document ?pt) k = nodeValue (document pc) k"
    by (rule foldl_applyTextNode_untouched)
  moreover have "nodeValue (document (applyTranslations ?ts T A pc)) = nodeValue (document ?pt)"
    by (simp add: applyTranslations_def foldl_applyAttrNode_frame)
  ultimately show ?thesis by simp
qed

lemma applyTranslations_attr_written:
  assumes "noEmptyValues (translationCache pc)" and "a \<in> set A"
    and "translatedIn (translationCache pc) (a_text a)"
    and "\<forall>b \<in> set A. element b = element a \<and> attribute b = attribute a \<longrightarrow> a_text b = a_text a"
  shows "getAttribute (document (applyTranslations (passTexts (document pc) T A) T A pc)) (element a) (attribute a)
     = translationCache pc (a_text a)"
proof -
  let ?ts = "passTexts (document pc) T A"
  let ?pt = "foldl (applyTextNode ?ts) pc (zip T [0..<length T])"
  have c: "translationCache ?pt = translationCache pc"
    by (simp add: foldl_applyTextNode_frame)
  obtain i where i: "(a, i) \<in> set (zip A [0..<length A])"
    using in_zip_upt [OF assms(2)] by blast
  have ti: "?ts ! (length T + i) = a_text a"
    using passTexts_attr [OF i] .
  have same: "\<forall>(b, j) \<in> set (zip A [0..<length A]). element b = element a \<and> attribute b = attribute a
      \<longrightarrow> ?ts ! (length T + j) = ?ts ! (length T + i)"
  proof (intro ballI, clarify)
    fix b j
    assume bj: "(b, j) \<in> set (zip A [0..<length A])"
      and eq: "element b = element a" "attribute b = attribute a"
    have "b \<in> set A" using zip_upt_fst [OF bj] .
    then have "a_text b = a_text a" using assms(4) eq by blast
    then show "?ts ! (length T + j) = ?ts ! (length T + i)"
      using passTexts_attr [OF bj, of "document pc" T] ti by simp
  qed
  have "getAttribute (document (foldl (applyAttrNode ?ts (length T)) ?pt (zip A [0..<length A]))) (element a) (attribute a)
      = translationCache ?pt (?ts ! (length T + i))"
    by (rule foldl_applyAttrNode_written [OF i _ _ same]) (simp_all add: c ti assms(1,3))
  then show ?thesis
    by (simp add: applyTranslations_def c ti)
qed

lemma applyTranslations_attr_untouched:
  assumes "\<forall>b \<in> set A. element b = e \<and> attribute b = k \<longrightarrow> \<not> translatedIn (translationCache pc) (a_text b)"
  shows "getAttribute (document (applyTranslations (passTexts (document pc) T A) T A pc)) e k
     = getAttribute (document pc) e k"
proof -
  let ?ts = "passTexts (document pc) T A"
  let ?pt = "foldl (applyTextNode ?ts) pc (zip T [0..<length T])"
  have c: "translationCache ?pt = translationCache pc"
    and at: "attributes (document ?pt) = attributes (document pc)"
    by (simp_all add: foldl_applyTextNode_frame)
  have "\<forall>(b, j) \<in> set (zip A [0..<length A]). element b = e \<and> attribute b = k
      \<longrightarrow> \<not> translatedIn (translationCache ?pt) (?ts ! (length T + j))"
  proof (intro ballI, clarify)
    fix b j
    assume bj: "(b, j) \<in> set (zip A [0..<length A])"
      and tr: "translatedIn (translationCache ?pt) (?ts ! (length T + j))"
      and eq: "e = element b" "k = attribute b"
    have "b \<in> set A" using zip_upt_fst [OF bj] .
    then have "\<not> translatedIn (translationCache pc) (a_text b)" using assms eq by blast
    then have "\<not> translatedIn (translationCache ?pt) (?ts ! (length T + j))"
      using passTexts_attr [OF bj, of "document pc" T] c by simp
    then show False using tr by simp
  qed
  then have "getAttribute (document (foldl (applyAttrNode ?ts (length T)) ?pt (zip A [0..<length A]))) e k
      = getAttribute (document ?pt) e k"
    by (rule foldl_applyAttrNode_untouched)
  then show ?thesis
    by (simp add: applyTranslations_def getAttribute_def at)
qed

lemma applyTranslations_element_untouched:
  assumes "\<forall>b \<in> set A. element b = e \<longrightarrow> \<not> translatedIn (translationCache pc) (a_text b)"
  shows "attributes (document (applyTranslations (passTexts (document pc) T A) T A pc)) e
     = attributes (document pc) e"
proof -
  let ?ts = "passTexts (document pc) T A"
  let ?pt = "foldl (applyTextNode ?ts) pc (zip T [0..<length T])"
  have c: "translationCache ?pt = translationCache pc"
    and at: "attributes (document ?pt) = attributes (document pc)"
    by (simp_all add: foldl_applyTextNode_frame)
  have "\<forall>(b, j) \<in> set (zip A [0..<length A]). element b = e
      \<longrightarrow> \<not> translatedIn (translationCache ?pt) (?ts ! (length T + j))"
  proof (intro ballI, clarify)
    fix b j
    assume bj: "(b, j) \<in> set (zip A [0..<length A])"
      and tr: "translatedIn (translationCache ?pt) (?ts ! (length T + j))"
      and eq: "e = element b"
    have "b \<in> set A" using zip_upt_fst [OF bj] .
    then have "\<not> translatedIn (translationCache pc) (a_text b)" using assms eq by blast
    then have "\<not> translatedIn (translationCache ?pt) (?ts ! (length T + j))"
      using passTexts_attr [OF bj, of "document pc" T] c by simp
    then show False using tr by simp
  qed
  then have "attributes (document (foldl (applyAttrNode ?ts (length T)) ?pt (zip A [0..<length A]))) e
      = attributes (document ?pt) e"
    by (rule foldl_applyAttrNode_element_untouched)
  then show ?thesis
    by (simp add: applyTranslations_def at)
qed

lemma applyTranslations_other_names:
  assumes "\<forall>b \<in> set A. attribute b \<noteq> k"
  shows "getAttribute (document (applyTranslations (passTexts (document pc) T A) T A pc)) e k
     = getAttribute (document pc) e k"
  by (rule applyTranslations_attr_untouched) (use assms in auto)

lemma translatePass_unfold:
  assumes "translatePass collaborator lang apiKey keepText keepAttr isHead ancestorOptOut rootNode p = (req, p')"
    and "T = filter keepText (collectTextNodes (document p) (translatedNodes p) isHead ancestorOptOut rootNode)"
    and "A = filter keepAttr (collectAttributeNodes (document p) (translatedNodes p) isHead rootNode)"
    and "T \<noteq> [] \<or> A \<noteq> []"
  shows "\<exists>cache'. cache' = snd (translateTexts collaborator lang apiKey (passTexts (document p) T A) (translationCache p))
      \<and> p' = applyTranslations (passTexts (document p) T A) T A (p\<lparr>translationCache := cache'\<rparr>)"
proof -
  have "length (passTexts (document p) T A) \<noteq> 0"
    using assms(4) by (auto simp: passTexts_def)
  then show ?thesis
    using assms(1) unfolding translatePass_def assms(2,3) [symmetric] Let_def
    by (auto split: prod.splits)
qed


section \<open>Properties of the apply phase\<close>

text \<open>
  C4 (as amended). Let a pass (of any of the four kinds: the filters \<open>keepText\<close> and
  \<open>keepAttr\<close> are arbitrary) turn the page \<open>p\<close> into \<open>p'\<close>, where the cache of \<open>p\<close> holds no
  empty value and no text node of the subtree shares its identity with an element.

  For every text node \<open>n\<close> the pass kept: if the cache after the pass maps the trimmed
  source string to a different value, that value is the node's \<open>nodeValue\<close> afterwards and
  the node is in \<open>translatedNodes\<close>; otherwise the \<open>nodeValue\<close> is unchanged, the node is not in
  \<open>translatedNodes\<close>, and every extraction that returned the node before the pass returns
  it after the pass.

  For every attribute candidate \<open>a\<close> the pass kept: if the cache maps its text to a different
  value, that value is the attribute's value afterwards and the element is in
  \<open>translatedNodes\<close>; otherwise the attribute is unchanged, and the element is in
  \<open>translatedNodes\<close> exactly when another kept candidate of the same element was translated
  (the marker is per element); when the element is not marked, every extraction that
  returned the candidate before returns it after.
\<close>

theorem apply_phase:
  assumes pass: "translatePass collaborator lang apiKey keepText keepAttr isHead ancestorOptOut rootNode p = (req, p')"
    and cache: "noEmptyValues (translationCache p)"
    and ids: "set (textIds rootNode) \<inter> set (elementIds rootNode) = {}"
  shows
    "(n \<in> set (filter keepText (collectTextNodes (document p) (translatedNodes p) isHead ancestorOptOut rootNode)) \<longrightarrow>
       (if translatedIn (translationCache p') (trim (nodeValue (document p) (t_node n)))
        then Some (nodeValue (document p') (t_node n))
               = translationCache p' (trim (nodeValue (document p) (t_node n)))
             \<and> t_node n \<in> translatedNodes p'
        else nodeValue (document p') (t_node n) = nodeValue (document p) (t_node n)
             \<and> t_node n \<notin> translatedNodes p'
             \<and> (n \<in> set (collectTextNodes (document p) (translatedNodes p) isHead2 ancestorOptOut2 rootNode2)
                  \<longrightarrow> n \<in> set (collectTextNodes (document p') (translatedNodes p') isHead2 ancestorOptOut2 rootNode2))))
     \<and> (a \<in> set (filter keepAttr (collectAttributeNodes (document p) (translatedNodes p) isHead rootNode)) \<longrightarrow>
       (if translatedIn (translationCache p') (a_text a)
        then getAttribute (document p') (element a) (attribute a) = translationCache p' (a_text a)
             \<and> element a \<in> translatedNodes p'
        else getAttribute (document p') (element a) (attribute a)
               = getAttribute (document p) (element a) (attribute a)
             \<and> (element a \<in> translatedNodes p' \<longleftrightarrow>
                  list_ex (\<lambda>b. element b = element a \<and> translatedIn (translationCache p') (a_text b))
                    (filter keepAttr (collectAttributeNodes (document p) (translatedNodes p) isHead rootNode)))
             \<and> (element a \<notin> translatedNodes p'
                  \<and> a \<in> set (collectAttributeNodes (document p) (translatedNodes p) isHead2 rootNode2)
                  \<longrightarrow> a \<in> set (collectAttributeNodes (document p') (translatedNodes p') isHead2 rootNode2))))"
proof -
  define T where "T = filter keepText (collectTextNodes (document p) (translatedNodes p) isHead ancestorOptOut rootNode)"
  define A where "A = filter keepAttr (collectAttributeNodes (document p) (translatedNodes p) isHead rootNode)"
  define src where "src = (\<lambda>m :: text_cand. trim (nodeValue (document p) (t_node m)))"
  have Tsub: "m \<in> set (collectTextNodes (document p) (translatedNodes p) isHead ancestorOptOut rootNode)"
    if "m \<in> set T" for m using that by (simp add: T_def)
  have Asub: "b \<in> set (collectAttributeNodes (document p) (translatedNodes p) isHead rootNode)"
    if "b \<in> set A" for b using that by (simp add: A_def)
  show ?thesis
  proof (cases "T = [] \<and> A = []")
    case True
    then show ?thesis unfolding T_def [symmetric] A_def [symmetric] by simp
  next
    case False
    then have ne: "T \<noteq> [] \<or> A \<noteq> []" by simp
    define c where "c = snd (translateTexts collaborator lang apiKey (passTexts (document p) T A) (translationCache p))"
    define pc where "pc = p\<lparr>translationCache := c\<rparr>"
    have p': "p' = applyTranslations (passTexts (document pc) T A) T A pc"
      using translatePass_unfold [OF pass T_def A_def ne] by (simp add: c_def pc_def)
    have pc_doc: "document pc = document p" and pc_marked: "translatedNodes pc = translatedNodes p"
      and pc_cache: "translationCache pc = c"
      by (simp_all add: pc_def)
    have cne: "noEmptyValues (translationCache pc)"
      using translateTexts_noEmptyValues [OF cache] by (simp add: pc_cache c_def)
    have c': "translationCache p' = c"
      by (simp add: p' applyTranslations_cache pc_cache)
    have marked': "translatedNodes p' = translatedNodes p
        \<union> {t_node m |m. m \<in> set T \<and> translatedIn c (src m)}
        \<union> {element b |b. b \<in> set A \<and> translatedIn c (a_text b)}"
      using applyTranslations_marked_eq [OF cne, of T A] by (simp add: p' pc_doc pc_marked pc_cache src_def)
    have names: "attribute b \<noteq> k" if "b \<in> set A" "k \<notin> set (''content'' # standardAttributes)" for b k
      using collectAttributeNodes_props(2) [OF Asub [OF that(1)]] that(2) by auto
    have other: "getAttribute (document p') e k = getAttribute (document p) e k"
      if "k \<notin> set (''content'' # standardAttributes)" for e k
      using applyTranslations_other_names [of A k pc T e] names that by (auto simp: p' pc_doc)
    have tno: "translateNo (attributes (document p') e) = translateNo (attributes (document p) e)" for e
      using other [of "''translate''" e] by (simp add: translateNo_def getAttribute_def standardAttributes_def)
    have text_part: "if translatedIn c (src n)
        then Some (nodeValue (document p') (t_node n)) = c (src n) \<and> t_node n \<in> translatedNodes p'
        else nodeValue (document p') (t_node n) = nodeValue (document p) (t_node n)
             \<and> t_node n \<notin> translatedNodes p'
             \<and> (n \<in> set (collectTextNodes (document p) (translatedNodes p) isHead2 ancestorOptOut2 rootNode2)
                  \<longrightarrow> n \<in> set (collectTextNodes (document p') (translatedNodes p') isHead2 ancestorOptOut2 rootNode2))"
      if n: "n \<in> set T"
    proof (cases "translatedIn c (src n)")
      case True
      have "Some (nodeValue (document p') (t_node n)) = c (src n)"
        using applyTranslations_text_written [OF cne n, of A] True
        by (simp add: p' pc_doc pc_cache src_def)
      moreover have "t_node n \<in> translatedNodes p'"
        using marked' n True by auto
      ultimately show ?thesis using True by simp
    next
      case False
      have none: "\<forall>m \<in> set T. t_node m = t_node n
          \<longrightarrow> \<not> translatedIn (translationCache pc) (trim (nodeValue (document pc) (t_node m)))"
        using False by (simp add: src_def pc_doc pc_cache)
      have untouched: "nodeValue (document p') (t_node n) = nodeValue (document p) (t_node n)"
        using applyTranslations_text_untouched [OF none, of A] by (simp add: p' pc_doc)
      have "t_node n \<notin> translatedNodes p"
        using collectTextNodes_unmarked [OF Tsub [OF n]] .
      moreover have "t_node n \<notin> {t_node m |m. m \<in> set T \<and> translatedIn c (src m)}"
        using none by (auto simp: src_def pc_doc pc_cache)
      moreover have "t_node n \<notin> {element b |b. b \<in> set A \<and> translatedIn c (a_text b)}"
      proof
        assume "t_node n \<in> {element b |b. b \<in> set A \<and> translatedIn c (a_text b)}"
        then obtain b where b: "b \<in> set A" "element b = t_node n" by auto
        have "element b \<in> set (elementIds rootNode)"
          using collectAttributeNodes_props(1) [OF Asub [OF b(1)]] .
        moreover have "t_node n \<in> set (textIds rootNode)"
          using collectTextNodes_textIds [OF Tsub [OF n]] .
        ultimately show False using ids b(2) by auto
      qed
      ultimately have unmarked: "t_node n \<notin> translatedNodes p'"
        using marked' by simp
      have "n \<in> set (collectTextNodes (document p') (translatedNodes p') isHead2 ancestorOptOut2 rootNode2)"
        if "n \<in> set (collectTextNodes (document p) (translatedNodes p) isHead2 ancestorOptOut2 rootNode2)"
        using collectTextNodes_stable [OF that unmarked untouched tno] .
      then show ?thesis using False untouched unmarked by simp
    qed
    have attr_part: "if translatedIn c (a_text a)
        then getAttribute (document p') (element a) (attribute a) = c (a_text a)
             \<and> element a \<in> translatedNodes p'
        else getAttribute (document p') (element a) (attribute a)
               = getAttribute (document p) (element a) (attribute a)
             \<and> (element a \<in> translatedNodes p' \<longleftrightarrow>
                  list_ex (\<lambda>b. element b = element a \<and> translatedIn c (a_text b)) A)
             \<and> (element a \<notin> translatedNodes p'
                  \<and> a \<in> set (collectAttributeNodes (document p) (translatedNodes p) isHead2 rootNode2)
                  \<longrightarrow> a \<in> set (collectAttributeNodes (document p') (translatedNodes p') isHead2 rootNode2))"
      if a: "a \<in> set A"
    proof -
      have "a_text b = a_text a" if "b \<in> set A" "element b = element a" "attribute b = attribute a" for b
        using collectAttributeNodes_props(3) [OF Asub [OF that(1)]]
          collectAttributeNodes_props(3) [OF Asub [OF a]] that(2,3) by simp
      then have same_text: "\<forall>b \<in> set A. element b = element a \<and> attribute b = attribute a
          \<longrightarrow> a_text b = a_text a"
        by blast
      show ?thesis
      proof (cases "translatedIn c (a_text a)")
        case True
        have "translatedIn (translationCache pc) (a_text a)"
          using True by (simp add: pc_cache)
        then have "getAttribute (document p') (element a) (attribute a) = c (a_text a)"
          using applyTranslations_attr_written [OF cne a _ same_text, of T]
          by (simp add: p' pc_cache)
        moreover have "element a \<in> translatedNodes p'"
          using marked' a True by auto
        ultimately show ?thesis using True by simp
      next
        case False
        have "\<forall>b \<in> set A. element b = element a \<and> attribute b = attribute a
            \<longrightarrow> \<not> translatedIn (translationCache pc) (a_text b)"
          using same_text False by (metis pc_cache)
        then have untouched: "getAttribute (document p') (element a) (attribute a)
            = getAttribute (document p) (element a) (attribute a)"
          using applyTranslations_attr_untouched [of A "element a" "attribute a" pc T]
          by (simp add: p' pc_doc)
        have "element a \<notin> translatedNodes p"
          using collectAttributeNodes_unmarked [OF Asub [OF a]] .
        moreover have "element a \<notin> {t_node m |m. m \<in> set T \<and> translatedIn c (src m)}"
        proof
          assume "element a \<in> {t_node m |m. m \<in> set T \<and> translatedIn c (src m)}"
          then obtain m where m: "m \<in> set T" "t_node m = element a" by auto
          have "element a \<in> set (elementIds rootNode)"
            using collectAttributeNodes_props(1) [OF Asub [OF a]] .
          moreover have "t_node m \<in> set (textIds rootNode)"
            using collectTextNodes_textIds [OF Tsub [OF m(1)]] .
          ultimately show False using ids m(2) by auto
        qed
        ultimately have iff: "element a \<in> translatedNodes p' \<longleftrightarrow>
            list_ex (\<lambda>b. element b = element a \<and> translatedIn c (a_text b)) A"
          using marked' by (auto simp: list_ex_iff)
        have retry: "a \<in> set (collectAttributeNodes (document p') (translatedNodes p') isHead2 rootNode2)"
          if un: "element a \<notin> translatedNodes p'"
            and before: "a \<in> set (collectAttributeNodes (document p) (translatedNodes p) isHead2 rootNode2)"
        proof -
          have "\<forall>b \<in> set A. element b = element a \<longrightarrow> \<not> translatedIn (translationCache pc) (a_text b)"
            using iff un by (auto simp: list_ex_iff pc_cache)
          then have at: "attributes (document p') (element a) = attributes (document p) (element a)"
            using applyTranslations_element_untouched [of A "element a" pc T]
            by (simp add: p' pc_doc)
          show ?thesis
            by (rule collectAttributeNodes_stable [OF before un at])
               (simp_all add: other standardAttributes_def)
        qed
        show ?thesis using False untouched iff retry by auto
      qed
    qed
    show ?thesis
      using text_part attr_part
      unfolding T_def [symmetric] A_def [symmetric] c' src_def by blast
  qed
qed


section \<open>The sample page\<close>

lemma trim_Hello: "trim ''Hello'' = ''Hello''" by (simp add: trim_def isWhiteSpace_def)
lemma trim_World: "trim ''World'' = ''World''" by (simp add: trim_def isWhiteSpace_def)

lemma sample_text_nodes:
  "collectTextNodes sampleDom {} False False sampleBody
     = [\<lparr>t_node = 3, t_parent = 2\<rparr>, \<lparr>t_node = 5, t_parent = 4\<rparr>]"
  by (simp add: collectTextNodes_def sampleBody_def sampleDom_def translateNo_def trim_Hello trim_World)

lemma sample_attr_nodes:
  "collectAttributeNodes sampleDom {} False sampleBody
     = [\<lparr>element = 6, attribute = ''alt'', a_text = ''Hello''\<rparr>,
        \<lparr>element = 6, attribute = ''title'', a_text = ''World''\<rparr>]"
  by (simp add: collectAttributeNodes_def attributeElements_def standardAttributes_def attrCandidate_def
        getAttribute_def sampleBody_def sampleDom_def trim_Hello trim_World)

lemma sample_values: "nodeValue sampleDom 3 = ''Hello''" "nodeValue sampleDom 5 = ''World''"
  by (simp_all add: sampleDom_def)

lemma sample_texts:
  "passTexts (document samplePage)
      [\<lparr>t_node = 3, t_parent = 2\<rparr>, \<lparr>t_node = 5, t_parent = 4\<rparr>]
      [\<lparr>element = 6, attribute = ''alt'', a_text = ''Hello''\<rparr>,
       \<lparr>element = 6, attribute = ''title'', a_text = ''World''\<rparr>]
     = [''Hello'', ''World'', ''Hello'', ''World'']"
  by (simp add: samplePage_def passTexts_def sample_values trim_Hello trim_World)

lemma sample_cache:
  "snd (translateTexts helloCollaborator ''fr'' ''key'' [''Hello'', ''World'', ''Hello'', ''World'']
          (translationCache samplePage))
     = [''Hello'' \<mapsto> ''Bonjour'']"
  by (simp add: translateTexts_def toTranslate_def helloCollaborator_def samplePage_def)

lemma sample_pass_page:
  "snd (translatePass helloCollaborator ''fr'' ''key'' (\<lambda>n. True) (\<lambda>a. True) False False sampleBody samplePage)
     = applyTranslations [''Hello'', ''World'', ''Hello'', ''World'']
         [\<lparr>t_node = 3, t_parent = 2\<rparr>, \<lparr>t_node = 5, t_parent = 4\<rparr>]
         [\<lparr>element = 6, attribute = ''alt'', a_text = ''Hello''\<rparr>,
          \<lparr>element = 6, attribute = ''title'', a_text = ''World''\<rparr>]
         (samplePage\<lparr>translationCache := [''Hello'' \<mapsto> ''Bonjour'']\<rparr>)"
proof -
  have T: "[\<lparr>t_node = 3, t_parent = 2\<rparr>, \<lparr>t_node = 5, t_parent = 4\<rparr>]
      = filter (\<lambda>n. True) (collectTextNodes (document samplePage) (translatedNodes samplePage) False False sampleBody)"
    by (simp add: samplePage_def sample_text_nodes)
  have A: "[\<lparr>element = 6, attribute = ''alt'', a_text = ''Hello''\<rparr>,
            \<lparr>element = 6, attribute = ''title'', a_text = ''World''\<rparr>]
      = filter (\<lambda>a. True) (collectAttributeNodes (document samplePage) (translatedNodes samplePage) False sampleBody)"
    by (simp add: samplePage_def sample_attr_nodes)
  have pass: "translatePass helloCollaborator ''fr'' ''key'' (\<lambda>n. True) (\<lambda>a. True) False False sampleBody samplePage
      = (fst (translatePass helloCollaborator ''fr'' ''key'' (\<lambda>n. True) (\<lambda>a. True) False False sampleBody samplePage),
         snd (translatePass helloCollaborator ''fr'' ''key'' (\<lambda>n. True) (\<lambda>a. True) False False sampleBody samplePage))"
    by simp
  show ?thesis
    using translatePass_unfold [OF pass T A] by (simp add: sample_texts sample_cache)
qed

lemma translatePass_sent:
  "sentTexts (fst (translatePass collaborator lang apiKey keepText keepAttr isHead ancestorOptOut rootNode p))
     = toTranslate (translationCache p)
         (passTexts (document p)
            (filter keepText (collectTextNodes (document p) (translatedNodes p) isHead ancestorOptOut rootNode))
            (filter keepAttr (collectAttributeNodes (document p) (translatedNodes p) isHead rootNode)))"
proof -
  define ts where "ts = passTexts (document p)
            (filter keepText (collectTextNodes (document p) (translatedNodes p) isHead ancestorOptOut rootNode))
            (filter keepAttr (collectAttributeNodes (document p) (translatedNodes p) isHead rootNode))"
  show ?thesis
  proof (cases "length ts = 0")
    case True
    then show ?thesis
      unfolding translatePass_def Let_def ts_def [symmetric] by (simp add: toTranslate_def)
  next
    case False
    have "fst (translatePass collaborator lang apiKey keepText keepAttr isHead ancestorOptOut rootNode p)
        = fst (translateTexts collaborator lang apiKey ts (translationCache p))"
      using False unfolding translatePass_def Let_def ts_def [symmetric] by (simp split: prod.splits)
    then show ?thesis
      unfolding ts_def [symmetric] by (simp add: sentTexts_translateTexts)
  qed
qed

lemma sample_pass_texts:
  "sentTexts (fst (translatePass helloCollaborator ''fr'' ''key'' (\<lambda>n. True) (\<lambda>a. True) False False sampleBody samplePage))
     = [''Hello'', ''World'', ''Hello'', ''World'']"
proof -
  have "passTexts (document samplePage)
      (filter (\<lambda>n. True) (collectTextNodes (document samplePage) (translatedNodes samplePage) False False sampleBody))
      (filter (\<lambda>a. True) (collectAttributeNodes (document samplePage) (translatedNodes samplePage) False sampleBody))
     = [''Hello'', ''World'', ''Hello'', ''World'']"
    using sample_texts by (simp add: samplePage_def sample_text_nodes sample_attr_nodes)
  then show ?thesis
    unfolding translatePass_sent by (simp add: toTranslate_def samplePage_def)
qed

lemma sample_after:
  "translatedNodes (snd (translatePass helloCollaborator ''fr'' ''key'' (\<lambda>n. True) (\<lambda>a. True) False False sampleBody samplePage)) = {3, 6}"
  "nodeValue (document (snd (translatePass helloCollaborator ''fr'' ''key'' (\<lambda>n. True) (\<lambda>a. True) False False sampleBody samplePage))) 3 = ''Bonjour''"
  "nodeValue (document (snd (translatePass helloCollaborator ''fr'' ''key'' (\<lambda>n. True) (\<lambda>a. True) False False sampleBody samplePage))) 5 = ''World''"
  "attributes (document (snd (translatePass helloCollaborator ''fr'' ''key'' (\<lambda>n. True) (\<lambda>a. True) False False sampleBody samplePage))) 6
     = [(''alt'', ''Bonjour''), (''title'', ''World'')]"
  "translationCache (snd (translatePass helloCollaborator ''fr'' ''key'' (\<lambda>n. True) (\<lambda>a. True) False False sampleBody samplePage))
     = [''Hello'' \<mapsto> ''Bonjour'']"
  unfolding sample_pass_page
  by (auto simp add: applyTranslations_def applyTextNode_def applyAttrNode_def samplePage_def
      setNodeValue_def setAttribute_def Let_def sampleDom_def upt_rec)

lemma translatedIn_iff: "translatedIn c s \<longleftrightarrow> \<not> (c s = None \<or> c s = Some s)"
  by (auto simp: translatedIn_def split: option.splits)

text \<open>
  C1 (as amended). The \<open>texts\<close> array of the request of a pass lists a string as often as
  it occurs among the candidate strings of the pass (text nodes first, then attributes),
  unless the cache maps it to a different value; then it is not listed.
\<close>

theorem pass_batch_counts:
  "count_list (sentTexts (fst (translatePass collaborator lang apiKey keepText keepAttr isHead ancestorOptOut rootNode p))) s
     = (if translatedIn (translationCache p) s then 0
        else count_list (passTexts (document p)
            (filter keepText (collectTextNodes (document p) (translatedNodes p) isHead ancestorOptOut rootNode))
            (filter keepAttr (collectAttributeNodes (document p) (translatedNodes p) isHead rootNode))) s)"
  unfolding translatePass_sent
  by (simp add: toTranslate_def count_list_filter translatedIn_iff)

text \<open>
  C1 (counterexample). On the sample page \<open>"Hello"\<close> is the text of a paragraph and the \<open>alt\<close>
  of the image; the request of \<open>translateContent\<close> lists it twice.
\<close>

theorem pass_duplicate_counterexample:
  "count_list (sentTexts (fst (translateContent helloCollaborator ''fr'' ''key'' False False sampleBody samplePage)))
     ''Hello'' = 2"
  unfolding translateContent_def sample_pass_texts by simp

lemma sample_ids: "set (textIds sampleBody) \<inter> set (elementIds sampleBody) = {}"
  by (simp add: sampleBody_def elementIds_def)

lemma sample_noEmptyValues: "noEmptyValues (translationCache samplePage)"
  by (simp add: noEmptyValues_def samplePage_def)

text \<open>
  C4 (witness): the first pass over the sample page, with \<open>"Hello"\<close> answered and \<open>"World"\<close>
  not.
\<close>

theorem apply_phase_witness:
  "nodeValue (document (snd (translatePass helloCollaborator ''fr'' ''key'' (\<lambda>n. True) (\<lambda>a. True) False False sampleBody samplePage))) 3 = ''Bonjour''
   \<and> 3 \<in> translatedNodes (snd (translatePass helloCollaborator ''fr'' ''key'' (\<lambda>n. True) (\<lambda>a. True) False False sampleBody samplePage))
   \<and> nodeValue (document (snd (translatePass helloCollaborator ''fr'' ''key'' (\<lambda>n. True) (\<lambda>a. True) False False sampleBody samplePage))) 5 = ''World''
   \<and> 5 \<notin> translatedNodes (snd (translatePass helloCollaborator ''fr'' ''key'' (\<lambda>n. True) (\<lambda>a. True) False False sampleBody samplePage))
   \<and> \<lparr>t_node = 5, t_parent = 4\<rparr> \<in> set (collectTextNodes
         (document (snd (translatePass helloCollaborator ''fr'' ''key'' (\<lambda>n. True) (\<lambda>a. True) False False sampleBody samplePage)))
         (translatedNodes (snd (translatePass helloCollaborator ''fr'' ''key'' (\<lambda>n. True) (\<lambda>a. True) False False sampleBody samplePage)))
         False False sampleBody)
   \<and> getAttribute (document (snd (translatePass helloCollaborator ''fr'' ''key'' (\<lambda>n. True) (\<lambda>a. True) False False sampleBody samplePage))) 6 ''alt''
       = Some ''Bonjour''
   \<and> getAttribute (document (snd (translatePass helloCollaborator ''fr'' ''key'' (\<lambda>n. True) (\<lambda>a. True) False False sampleBody samplePage))) 6 ''title''
       = Some ''World''"
proof -
  define P where "P = snd (translatePass helloCollaborator ''fr'' ''key'' (\<lambda>n. True) (\<lambda>a. True) False False sampleBody samplePage)"
  have pass: "translatePass helloCollaborator ''fr'' ''key'' (\<lambda>n. True) (\<lambda>a. True) False False sampleBody samplePage
      = (fst (translatePass helloCollaborator ''fr'' ''key'' (\<lambda>n. True) (\<lambda>a. True) False False sampleBody samplePage), P)"
    by (simp add: P_def)
  have c: "translationCache P = [''Hello'' \<mapsto> ''Bonjour'']"
    by (simp add: P_def sample_after)
  have before: "getAttribute sampleDom 6 ''title'' = Some ''World''"
    by (simp add: sampleDom_def getAttribute_def)
  have cands: "document samplePage = sampleDom" "translatedNodes samplePage = {}"
    by (simp_all add: samplePage_def)
  have hello: "translatedIn [''Hello'' \<mapsto> ''Bonjour''] ''Hello''"
    and world: "\<not> translatedIn [''Hello'' \<mapsto> ''Bonjour''] ''World''"
    by (simp_all add: translatedIn_def)
  note translated = apply_phase [OF pass sample_noEmptyValues sample_ids,
      where n = "\<lparr>t_node = 3, t_parent = 2\<rparr>"
        and a = "\<lparr>element = 6, attribute = ''alt'', a_text = ''Hello''\<rparr>"
        and ?isHead2.0 = False and ?ancestorOptOut2.0 = False and ?rootNode2.0 = sampleBody]
  note untranslated = apply_phase [OF pass sample_noEmptyValues sample_ids,
      where n = "\<lparr>t_node = 5, t_parent = 4\<rparr>"
        and a = "\<lparr>element = 6, attribute = ''title'', a_text = ''World''\<rparr>"
        and ?isHead2.0 = False and ?ancestorOptOut2.0 = False and ?rootNode2.0 = sampleBody]
  show ?thesis
    unfolding P_def [symmetric]
    using translated untranslated
    by (simp add: c before cands sample_values sample_text_nodes sample_attr_nodes trim_Hello trim_World
          hello world)
qed

text \<open>
  C4 (counterexample). On the sample page the image has \<open>alt="Hello"\<close> and
  \<open>title="World"\<close>. After the pass the cache has no entry for \<open>"World"\<close>, yet the image is
  in \<open>translatedNodes\<close>, because its \<open>alt\<close> was translated, and the candidate for its \<open>title\<close>,
  which extraction returned before the pass, is not returned any more.
\<close>

theorem untranslated_attribute_counterexample:
  "translationCache (snd (translatePass helloCollaborator ''fr'' ''key'' (\<lambda>n. True) (\<lambda>a. True) False False sampleBody samplePage)) ''World'' = None
   \<and> \<lparr>element = 6, attribute = ''title'', a_text = ''World''\<rparr>
       \<in> set (collectAttributeNodes (document samplePage) (translatedNodes samplePage) False sampleBody)
   \<and> 6 \<in> translatedNodes (snd (translatePass helloCollaborator ''fr'' ''key'' (\<lambda>n. True) (\<lambda>a. True) False False sampleBody samplePage))
   \<and> \<lparr>element = 6, attribute = ''title'', a_text = ''World''\<rparr>
       \<notin> set (collectAttributeNodes
           (document (snd (translatePass helloCollaborator ''fr'' ''key'' (\<lambda>n. True) (\<lambda>a. True) False False sampleBody samplePage)))
           (translatedNodes (snd (translatePass helloCollaborator ''fr'' ''key'' (\<lambda>n. True) (\<lambda>a. True) False False sampleBody samplePage)))
           False sampleBody)"
proof -
  define P where "P = snd (translatePass helloCollaborator ''fr'' ''key'' (\<lambda>n. True) (\<lambda>a. True) False False sampleBody samplePage)"
  have marked: "6 \<in> translatedNodes P"
    by (simp add: P_def sample_after)
  have "\<lparr>element = 6, attribute = ''title'', a_text = ''World''\<rparr>
      \<notin> set (collectAttributeNodes (document P) (translatedNodes P) False sampleBody)"
    using collectAttributeNodes_unmarked [of "\<lparr>element = 6, attribute = ''title'', a_text = ''World''\<rparr>"
        "document P" "translatedNodes P" False sampleBody] marked by auto
  moreover have "translationCache P ''World'' = None"
    by (simp add: P_def sample_after)
  moreover have "\<lparr>element = 6, attribute = ''title'', a_text = ''World''\<rparr>
      \<in> set (collectAttributeNodes (document samplePage) (translatedNodes samplePage) False sampleBody)"
    by (simp add: samplePage_def sample_attr_nodes)
  ultimately show ?thesis
    unfolding P_def [symmetric] using marked by simp
qed

text \<open>
  C5 (witness): on the sample page after the first pass, the text node 3 (then "Bonjour")
  is marked.
\<close>

theorem marker_exclusion_witness:
  "3 \<notin> t_node ` set (collectTextNodes
         (document (snd (translatePass helloCollaborator ''fr'' ''key'' (\<lambda>n. True) (\<lambda>a. True) False False sampleBody samplePage)))
         (translatedNodes (snd (translatePass helloCollaborator ''fr'' ''key'' (\<lambda>n. True) (\<lambda>a. True) False False sampleBody samplePage)))
         False False sampleBody)
   \<and> 3 \<notin> element ` set (collectAttributeNodes
         (document (snd (translatePass helloCollaborator ''fr'' ''key'' (\<lambda>n. True) (\<lambda>a. True) False False sampleBody samplePage)))
         (translatedNodes (snd (translatePass helloCollaborator ''fr'' ''key'' (\<lambda>n. True) (\<lambda>a. True) False False sampleBody samplePage)))
         False sampleBody)
   \<and> 3 \<in> translatedNodes (snd (translatePass helloCollaborator ''fr'' ''key'' (\<lambda>n. True) (\<lambda>a. True) False False sampleBody
         (snd (translatePass helloCollaborator ''fr'' ''key'' (\<lambda>n. True) (\<lambda>a. True) False False sampleBody samplePage))))
   \<and> 3 \<in> translatedNodes (snd (translateNewNodes helloCollaborator ''fr'' ''key'' [(sampleBody, False)]
         (snd (translatePass helloCollaborator ''fr'' ''key'' (\<lambda>n. True) (\<lambda>a. True) False False sampleBody samplePage))))"
proof -
  have marked: "3 \<in> translatedNodes (snd (translatePass helloCollaborator ''fr'' ''key'' (\<lambda>n. True) (\<lambda>a. True) False False sampleBody samplePage))"
    by (simp add: sample_after)
  show ?thesis
    by (rule marker_exclusion [OF marked])
qed


section \<open>Properties of the edge side\<close>

lemma includes_str_iff: "includes_str s m \<longleftrightarrow> (\<exists>a b. s = a @ m @ b)"
proof
  show "includes_str s m \<Longrightarrow> \<exists>a b. s = a @ m @ b"
  proof (induction s)
    case Nil
    then show ?case by simp
  next
    case (Cons c cs)
    then consider "startsWith (c # cs) m" | "includes_str cs m" by auto
    then show ?case
    proof cases
      case 1
      then obtain r where "c # cs = m @ r" using startsWith_iff by blast
      then have "c # cs = [] @ m @ r" by simp
      then show ?thesis by blast
    next
      case 2
      then obtain a b where "cs = a @ m @ b" using Cons.IH by blast
      then have "c # cs = (c # a) @ m @ b" by simp
      then show ?thesis by blast
    qed
  qed
next
  assume "\<exists>a b. s = a @ m @ b"
  then obtain a b where s: "s = a @ m @ b" by blast
  have "includes_str (a @ m @ b) m"
  proof (induction a)
    case Nil
    have "startsWith (m @ b) m" by (simp add: startsWith_iff)
    then show ?case by (cases "m @ b") auto
  next
    case (Cons c a)
    then show ?case by simp
  qed
  then show "includes_str s m" using s by simp
qed

lemma includes_str_appendI1: "includes_str a m \<Longrightarrow> includes_str (a @ b) m"
  unfolding includes_str_iff by (metis append.assoc)

lemma includes_str_appendI2: "includes_str b m \<Longrightarrow> includes_str (a @ b) m"
  unfolding includes_str_iff by (metis append.assoc)


lemma getSubstitution_prefix:
  "CHR ''$'' \<notin> set p \<Longrightarrow> r \<noteq> [] \<Longrightarrow>
     getSubstitution matched before after (p @ r) = p @ getSubstitution matched before after r"
proof (induction p)
  case Nil
  show ?case by simp
next
  case (Cons c p)
  obtain x xs where "p @ r = x # xs" using Cons.prems(2) by (cases "p @ r") auto
  moreover have "c \<noteq> CHR ''$''" using Cons.prems(1) by auto
  ultimately show ?case using Cons by simp
qed

lemma replaceString_fired:
  assumes "splitFirst pat s = Some (before, after)"
    and "CHR ''$'' \<notin> set p" and "r \<noteq> []" and "includes_str p m"
  shows "includes_str (replaceString pat (p @ r) s) m"
proof -
  have "replaceString pat (p @ r) s = before @ (p @ getSubstitution pat before after r) @ after"
    using assms(1) getSubstitution_prefix [OF assms(2,3)] by (simp add: replaceString_def)
  then show ?thesis
    using assms(4) by (simp add: includes_str_appendI1 includes_str_appendI2)
qed

lemma replaceString_unfired: "splitFirst pat s = None \<Longrightarrow> replaceString pat replacement s = s"
  by (simp add: replaceString_def)

lemma insertAfterHead_fired:
  assumes "matchHead html = Some (before, match, after)" and "includes_str script m"
  shows "includes_str (insertAfterHead script html) m"
  using assms by (simp add: insertAfterHead_def includes_str_appendI1 includes_str_appendI2)

lemma insertAfterHead_unfired: "matchHead html = None \<Longrightarrow> insertAfterHead script html = html"
  by (simp add: insertAfterHead_def)

lemma detect_marker: "includes_str detectScript_1 ''__ALTIFIED_AUTO_LANG_DETECT__''"
  by (simp add: detectScript_1_def)

lemma context_marker: "includes_str contextScript_1 ''__ALTIFIED_CONTEXT__''"
  by (simp add: contextScript_1_def)

lemma engine_marker:
  "includes_str engineScript_1 ''__ALTIFIED_AUTO_TRANSLATE__''" "CHR ''$'' \<notin> set engineScript_1"
  by (simp_all add: engineScript_1_def)

lemma hreflang_marker:
  "includes_str hreflangDefault_1 ''hreflang=''" "CHR ''$'' \<notin> set hreflangDefault_1"
  by (simp_all add: hreflangDefault_1_def)

lemma switcher_marker:
  "includes_str switcherStyle ''altified-lang-switcher''" "CHR ''$'' \<notin> set switcherStyle"
  by (simp_all add: switcherStyle_def)

lemma injectAutoLanguageDetection_idem:
  "injectAutoLanguageDetection (injectAutoLanguageDetection html cfg) cfg = injectAutoLanguageDetection html cfg"
proof (cases "includes_str html ''__ALTIFIED_AUTO_LANG_DETECT__''")
  case True
  then show ?thesis by (simp add: injectAutoLanguageDetection_def)
next
  case False
  show ?thesis
  proof (cases "matchHead html")
    case None
    then have "injectAutoLanguageDetection html cfg = html"
      using False by (simp add: injectAutoLanguageDetection_def Let_def insertAfterHead_unfired)
    then show ?thesis by simp
  next
    case (Some m)
    obtain before match after where m: "m = (before, match, after)" by (cases m)
    have "includes_str (detectScript_1 @ jsonStringify (targetLangsOf cfg) @ detectScript_2
            @ defaultLangOf cfg @ detectScript_3) ''__ALTIFIED_AUTO_LANG_DETECT__''"
      using detect_marker by (rule includes_str_appendI1)
    then have "includes_str (injectAutoLanguageDetection html cfg) ''__ALTIFIED_AUTO_LANG_DETECT__''"
      using False Some m by (simp add: injectAutoLanguageDetection_def Let_def insertAfterHead_fired)
    then show ?thesis by (simp add: injectAutoLanguageDetection_def)
  qed
qed

lemma injectLanguageContext_idem:
  "injectLanguageContext (injectLanguageContext html lang) lang = injectLanguageContext html lang"
proof (cases "includes_str html ''__ALTIFIED_CONTEXT__''")
  case True
  then show ?thesis by (simp add: injectLanguageContext_def)
next
  case False
  show ?thesis
  proof (cases "matchHead html")
    case None
    then have "injectLanguageContext html lang = html"
      using False by (simp add: injectLanguageContext_def insertAfterHead_unfired)
    then show ?thesis by simp
  next
    case (Some m)
    obtain before match after where m: "m = (before, match, after)" by (cases m)
    have "includes_str (contextScript_1 @ lang @ contextScript_2 @ lang @ contextScript_3) ''__ALTIFIED_CONTEXT__''"
      using context_marker by (rule includes_str_appendI1)
    then have "includes_str (injectLanguageContext html lang) ''__ALTIFIED_CONTEXT__''"
      using False Some m by (simp add: injectLanguageContext_def insertAfterHead_fired)
    then show ?thesis by (simp add: injectLanguageContext_def)
  qed
qed

lemma injectAutoTranslation_idem:
  "injectAutoTranslation (injectAutoTranslation html lang apiKey) lang apiKey = injectAutoTranslation html lang apiKey"
proof (cases "includes_str html ''__ALTIFIED_AUTO_TRANSLATE__''")
  case True
  then show ?thesis by (simp add: injectAutoTranslation_def)
next
  case False
  show ?thesis
  proof (cases "splitFirst ''</head>'' html")
    case None
    then have "injectAutoTranslation html lang apiKey = html"
      using False by (simp add: injectAutoTranslation_def replaceString_unfired)
    then show ?thesis by simp
  next
    case (Some m)
    obtain before after where m: "m = (before, after)" by (cases m)
    have "engineScript lang apiKey @ ''\<newline></head>''
        = engineScript_1 @ (lang @ engineScript_2 @ apiKey @ engineScript_3 @ lang @ engineScript_4
           @ ALTIFIED_API @ engineScript_5 @ apiKey @ engineScript_6 @ lang @ engineScript_7 @ lang
           @ engineScript_8 @ ''\<newline></head>'')"
      by (simp add: engineScript_def)
    moreover have "includes_str (replaceString ''</head>''
        (engineScript_1 @ (lang @ engineScript_2 @ apiKey @ engineScript_3 @ lang @ engineScript_4
           @ ALTIFIED_API @ engineScript_5 @ apiKey @ engineScript_6 @ lang @ engineScript_7 @ lang
           @ engineScript_8 @ ''\<newline></head>'')) html) ''__ALTIFIED_AUTO_TRANSLATE__''"
      using Some m by (intro replaceString_fired engine_marker) simp_all
    ultimately have "includes_str (injectAutoTranslation html lang apiKey) ''__ALTIFIED_AUTO_TRANSLATE__''"
      using False by (simp add: injectAutoTranslation_def)
    then show ?thesis by (simp add: injectAutoTranslation_def)
  qed
qed

lemma addHreflangLinks_idem:
  "addHreflangLinks (addHreflangLinks html pathname cfg domain) pathname cfg domain
     = addHreflangLinks html pathname cfg domain"
proof (cases "includes_str html ''hreflang=''")
  case True
  then show ?thesis by (simp add: addHreflangLinks_def)
next
  case False
  show ?thesis
  proof (cases "splitFirst ''</head>'' html")
    case None
    then have "addHreflangLinks html pathname cfg domain = html"
      using False by (simp add: addHreflangLinks_def Let_def replaceString_unfired)
    then show ?thesis by simp
  next
    case (Some m)
    obtain before after where m: "m = (before, after)" by (cases m)
    obtain rest where rest: "hreflangTags domain pathname (defaultLangOf cfg) (targetLangsOf cfg) @ ''\<newline></head>''
        = hreflangDefault_1 @ rest" and "rest \<noteq> []"
      by (simp add: hreflangTags_def)
    have "includes_str (replaceString ''</head>'' (hreflangDefault_1 @ rest) html) ''hreflang=''"
      using Some m \<open>rest \<noteq> []\<close> by (intro replaceString_fired hreflang_marker) simp_all
    then have "includes_str (addHreflangLinks html pathname cfg domain) ''hreflang=''"
      using False rest by (simp add: addHreflangLinks_def Let_def)
    then show ?thesis by (simp add: addHreflangLinks_def)
  qed
qed

lemma injectLanguageSwitcher_idem:
  "injectLanguageSwitcher (injectLanguageSwitcher html cfg languageNames) cfg languageNames
     = injectLanguageSwitcher html cfg languageNames"
proof (cases "includes_str html ''altified-lang-switcher''")
  case True
  then show ?thesis by (simp add: injectLanguageSwitcher_def)
next
  case False
  show ?thesis
  proof (cases "splitFirst ''</body>'' html")
    case None
    then have "injectLanguageSwitcher html cfg languageNames = html"
      using False by (simp add: injectLanguageSwitcher_def Let_def replaceString_unfired)
    then show ?thesis by simp
  next
    case (Some m)
    obtain before after where m: "m = (before, after)" by (cases m)
    obtain rest where rest: "(switcherStyle @ switcherSelectOpen @ concat (languageOptions cfg languageNames)
          @ switcherSelectClose @ switcherScript_1 @ defaultLangOf cfg @ switcherScript_2) @ ''\<newline></body>''
          = switcherStyle @ rest"
      and "rest \<noteq> []"
      by simp
    have "includes_str (replaceString ''</body>'' (switcherStyle @ rest) html) ''altified-lang-switcher''"
      using Some m \<open>rest \<noteq> []\<close> by (intro replaceString_fired switcher_marker) simp_all
    then have "includes_str (injectLanguageSwitcher html cfg languageNames) ''altified-lang-switcher''"
      using False rest by (simp add: injectLanguageSwitcher_def Let_def)
    then show ?thesis by (simp add: injectLanguageSwitcher_def)
  qed
qed

text \<open>
  C6. Each of the five injectors, applied to its own output with the same arguments,
  returns that output unchanged.
\<close>

theorem injectors_idempotent:
  "injectAutoTranslation (injectAutoTranslation html lang apiKey) lang apiKey
     = injectAutoTranslation html lang apiKey
   \<and> injectLanguageContext (injectLanguageContext html lang) lang = injectLanguageContext html lang
   \<and> addHreflangLinks (addHreflangLinks html pathname cfg domain) pathname cfg domain
     = addHreflangLinks html pathname cfg domain
   \<and> injectLanguageSwitcher (injectLanguageSwitcher html cfg languageNames) cfg languageNames
     = injectLanguageSwitcher html cfg languageNames
   \<and> injectAutoLanguageDetection (injectAutoLanguageDetection html cfg) cfg
     = injectAutoLanguageDetection html cfg"
  by (simp only: injectAutoTranslation_idem injectLanguageContext_idem addHreflangLinks_idem
        injectLanguageSwitcher_idem injectAutoLanguageDetection_idem)

lemma splitFirst_complete: "s = a @ pat @ b \<Longrightarrow> \<exists>before after. splitFirst pat s = Some (before, after)"
proof (induction a arbitrary: s)
  case Nil
  then have sw: "startsWith s pat" by (simp add: startsWith_iff)
  show ?case
  proof (cases s)
    case Nil
    then show ?thesis using sw by (cases pat) auto
  next
    case (Cons c cs)
    then show ?thesis using sw by simp
  qed
next
  case (Cons c a)
  then obtain before after where "splitFirst pat (a @ pat @ b) = Some (before, after)" by blast
  then show ?case using Cons.prems by auto
qed

lemma handleTranslatedRequest_not_ok:
  assumes "pageCache (urlString requestUrl, lang) = None"
    and "fetch (urlString (requestUrl\<lparr>url_pathname := (if originalPath = [] then ''/'' else originalPath)\<rparr>)) = Some response"
    and "\<not> ok response"
  shows "handleTranslatedRequest fetch pageCache requestUrl lang originalPath e cfg languageNames
     = (Some response, None)"
  using assms by (simp add: handleTranslatedRequest_def Let_def)

lemma injectLanguageSwitcher_marker:
  assumes "includes_str html ''</body>''"
  shows "includes_str (injectLanguageSwitcher html cfg languageNames) ''altified-lang-switcher''"
proof (cases "includes_str html ''altified-lang-switcher''")
  case True
  then show ?thesis by (simp add: injectLanguageSwitcher_def)
next
  case False
  obtain a b where "html = a @ ''</body>'' @ b"
    using assms includes_str_iff by blast
  then obtain before after where m: "splitFirst ''</body>'' html = Some (before, after)"
    using splitFirst_complete by blast
  obtain rest where rest: "(switcherStyle @ switcherSelectOpen @ concat (languageOptions cfg languageNames)
          @ switcherSelectClose @ switcherScript_1 @ defaultLangOf cfg @ switcherScript_2) @ ''\<newline></body>''
          = switcherStyle @ rest"
    and "rest \<noteq> []"
    by simp
  have "includes_str (replaceString ''</body>'' (switcherStyle @ rest) html) ''altified-lang-switcher''"
    using m \<open>rest \<noteq> []\<close> by (intro replaceString_fired switcher_marker) simp_all
  then show ?thesis
    using False rest by (simp add: injectLanguageSwitcher_def Let_def)
qed

lemma notFound_head:
  "matchHead (body notFoundPage)
     = Some (''<html>'', ''<head>'', ''<title>Not found</title></head><body><h1>Not found</h1></body></html>'')"
  by (simp add: matchHead_def notFoundPage_def)

lemma notFound_detect_keeps_body:
  "includes_str (injectAutoLanguageDetection (body notFoundPage) sampleConfig) ''</body>''"
proof (cases "includes_str (body notFoundPage) ''__ALTIFIED_AUTO_LANG_DETECT__''")
  case True
  then show ?thesis by (simp add: notFoundPage_def)
next
  case False
  have "includes_str ''<title>Not found</title></head><body><h1>Not found</h1></body></html>'' ''</body>''"
    by simp
  then show ?thesis
    using False unfolding injectAutoLanguageDetection_def Let_def insertAfterHead_def notFound_head
    by (simp add: includes_str_appendI2)
qed

text \<open>
  C3 (the code at the failing input). The origin answers the request for \<open>/missing\<close> with
  status 404 and an HTML body. \<open>handleDefaultLanguagePage\<close> tests the content type only:
  it returns a response with status 404 whose body carries the language switcher, which
  the origin's body does not.
\<close>

theorem default_page_augments_error_response:
  "\<not> ok notFoundPage
   \<and> map_option status (handleDefaultLanguagePage (\<lambda>u. Some notFoundPage) sampleUrl sampleConfig Map.empty) = Some 404
   \<and> includes_str (body (the (handleDefaultLanguagePage (\<lambda>u. Some notFoundPage) sampleUrl sampleConfig Map.empty)))
         ''altified-lang-switcher''
   \<and> \<not> includes_str (body notFoundPage) ''altified-lang-switcher''"
proof -
  have ct: "includes_str (contentType notFoundPage) ''html''"
    by (simp add: contentType_def notFoundPage_def)
  have "includes_str (injectLanguageSwitcher (injectAutoLanguageDetection (body notFoundPage) sampleConfig)
          sampleConfig Map.empty) ''altified-lang-switcher''"
    using notFound_detect_keeps_body by (rule injectLanguageSwitcher_marker)
  moreover have "\<not> ok notFoundPage" and "status notFoundPage = 404"
    and "\<not> includes_str (body notFoundPage) ''altified-lang-switcher''"
    by (simp_all add: ok_def notFoundPage_def)
  ultimately show ?thesis
    using ct by (simp add: handleDefaultLanguagePage_def Let_def)
qed























end
